theory Spec2Isabelle
  imports Main "HOL-Library.Word"
begin

section \<open>The contest ledger \<open>ContestTaskManager\<close>\<close>

text \<open>
  A shallow embedding of the Solidity contract \<open>ContestTaskManager\<close> (compiler 0.8.20).
  \<^item> \<open>uint256\<close> is a 256-bit word and \<open>address\<close> a 160-bit word. Arithmetic outside an
    \<open>unchecked\<close> block reverts on overflow, underflow and division by zero: the checked
    operations below return \<open>Inl Panic\<close> there.
  \<^item> A mapping is a total function: an absent key reads as the zero value of its type.
  \<^item> A call either reverts (\<open>Inl\<close>, the storage of the caller's state is kept as it was)
    or returns the new storage (\<open>Inr\<close>).
  \<^item> \<open>block.timestamp\<close>, \<open>msg.sender\<close> and \<open>msg.value\<close> are read from the environment
    of the call. Only \<open>deposit\<close> and \<open>receive\<close> are \<open>payable\<close>: every other function
    called by a transaction reverts with empty data, before its modifiers and its first
    \<open>require\<close>, when \<open>msg.value\<close> is not zero (\<open>NonPayable\<close>). The two \<open>view\<close> functions
    are read by calls that carry no ether, as the call \<open>this.getWinner\<close> of
    \<open>endContest\<close> is.
  \<^item> The token contract behind \<open>tokenManager\<close> (\<open>TokenContract.sol\<close>) is not among the
    sources: its storage is a value of an arbitrary type \<open>'t\<close> and its \<open>mint\<close> function a
    parameter of the operations, which returns the token's new storage, or \<open>None\<close> when
    it reverts. It does not call back into the ledger, so the \<open>nonReentrant\<close> guard
    never fires and is left out.
  \<^item> Gas is not modelled: a call never runs out of it.
\<close>

subsection \<open>Machine integers and errors\<close>

type_synonym uint256 = "256 word"
type_synonym address = "160 word"

datatype error =
    Revert string
  | Panic
  | OwnableUnauthorizedAccount address
  | OwnableInvalidOwner address
  | MintFailed
  | NonPayable

definition checked_add :: "uint256 \<Rightarrow> uint256 \<Rightarrow> error + uint256" where
  "checked_add a b = (if unat a + unat b < 2 ^ 256 then Inr (a + b) else Inl Panic)"

definition checked_sub :: "uint256 \<Rightarrow> uint256 \<Rightarrow> error + uint256" where
  "checked_sub a b = (if b \<le> a then Inr (a - b) else Inl Panic)"

definition checked_mul :: "uint256 \<Rightarrow> uint256 \<Rightarrow> error + uint256" where
  "checked_mul a b = (if unat a * unat b < 2 ^ 256 then Inr (a * b) else Inl Panic)"

definition checked_div :: "uint256 \<Rightarrow> uint256 \<Rightarrow> error + uint256" where
  "checked_div a b = (if b = 0 then Inl Panic else Inr (a div b))"

definition and_then :: "error + 'a \<Rightarrow> ('a \<Rightarrow> error + 'b) \<Rightarrow> error + 'b" where
  "and_then r f = (case r of Inl e \<Rightarrow> Inl e | Inr x \<Rightarrow> f x)"

text \<open>The names the specification gives to the revert reasons of the contract.\<close>

definition InvalidAmount :: error where
  "InvalidAmount = Revert ''Deposit amount must be greater than 0''"

definition ContestInactive :: error where
  "ContestInactive = Revert ''Contest is not active''"

definition AlreadyFinished :: error where
  "AlreadyFinished = Revert ''Participant already finished''"


definition VotingClosed :: error where
  "VotingClosed = Revert ''Voting period has ended''"

definition NotAParticipant :: error where
  "NotAParticipant = Revert ''You must be a participant to vote''"

definition AlreadyVoted :: error where
  "AlreadyVoted = Revert ''You have already voted''"

definition NomineeNotParticipant :: error where
  "NomineeNotParticipant = Revert ''Nominee must be a participant''"

definition VotingStillOpen :: error where
  "VotingStillOpen = Revert ''Voting period is not over''"

definition ContestStillActive :: error where
  "ContestStillActive = Revert ''Contest is still active''"

definition AlreadyInactive :: error where
  "AlreadyInactive = Revert ''Contest is already inactive''"

subsection \<open>Storage\<close>

definition INTEREST_RATE :: uint256 where
  "INTEREST_RATE = 5"

definition SECONDS_PER_YEAR :: uint256 where
  "SECONDS_PER_YEAR = 365 * 24 * 60 * 60"

record Participant =
  depositAmount :: uint256
  depositTimestamp :: uint256
  lastInterestClaimTime :: uint256
  votesReceived :: uint256
  hasVoted :: bool
  hasFinished :: bool

record ContestDetails =
  title :: string
  description :: string
  goals :: string
  totalDeposited :: uint256
  totalInterestGenerated :: uint256
  participantsCount :: uint256
  votingDeadline :: uint256
  active :: bool

datatype event =
    ContestCreated uint256 string uint256
  | ParticipantJoined uint256 address uint256
  | InterestClaimed address uint256 uint256
  | Voted uint256 address address
  | WinnerAnnounced uint256 address

record 't ledger =
  owner :: address
  tokenManager :: 't
  contestCounter :: uint256
  contests :: "uint256 \<Rightarrow> ContestDetails"
  contestParticipants :: "uint256 \<Rightarrow> address \<Rightarrow> Participant"
  events :: "event list"

record call_env =
  msg_sender :: address
  msg_value :: uint256
  block_timestamp :: uint256

text \<open>The zero values a mapping holds at every key that was never written.\<close>

definition zero_Participant :: Participant where
  "zero_Participant = \<lparr>depositAmount = 0, depositTimestamp = 0, lastInterestClaimTime = 0,
     votesReceived = 0, hasVoted = False, hasFinished = False\<rparr>"

definition zero_ContestDetails :: ContestDetails where
  "zero_ContestDetails = \<lparr>title = [], description = [], goals = [], totalDeposited = 0,
     totalInterestGenerated = 0, participantsCount = 0, votingDeadline = 0, active = False\<rparr>"

text \<open>The constructor: the deployer owns the ledger, every mapping is empty.\<close>

definition constructor :: "address \<Rightarrow> 't \<Rightarrow> 't ledger" where
  "constructor deployer tok = \<lparr>owner = deployer, tokenManager = tok, contestCounter = 0,
     contests = (\<lambda>_. zero_ContestDetails),
     contestParticipants = (\<lambda>_ _. zero_Participant), events = []\<rparr>"

text \<open>Writes through a storage pointer, and the event log.\<close>

definition set_participant :: "uint256 \<Rightarrow> address \<Rightarrow> Participant \<Rightarrow> 't ledger \<Rightarrow> 't ledger" where
  "set_participant contestId a p s =
     s\<lparr>contestParticipants := (contestParticipants s)
          (contestId := (contestParticipants s contestId)(a := p))\<rparr>"

definition set_contest :: "uint256 \<Rightarrow> ContestDetails \<Rightarrow> 't ledger \<Rightarrow> 't ledger" where
  "set_contest contestId c s = s\<lparr>contests := (contests s)(contestId := c)\<rparr>"

definition emit :: "event \<Rightarrow> 't ledger \<Rightarrow> 't ledger" where
  "emit e s = s\<lparr>events := events s @ [e]\<rparr>"

subsection \<open>Operations\<close>

text \<open>
  \<open>onlyOwner\<close> is the modifier of the library base contract Ownable: it reverts unless
  \<open>msg.sender\<close> is the owner. \<open>_contestCounter.increment()\<close> is the library counter,
  which adds one inside an \<open>unchecked\<close> block, and \<open>current()\<close> reads it.
\<close>

definition createContest ::
  "call_env \<Rightarrow> string \<Rightarrow> string \<Rightarrow> string \<Rightarrow> uint256 \<Rightarrow> 't ledger \<Rightarrow> error + ('t ledger \<times> uint256)" where
  "createContest env ttl descr gls votingDuration s =
     (if msg_value env \<noteq> 0 then Inl NonPayable
      else if msg_sender env \<noteq> owner s then Inl (OwnableUnauthorizedAccount (msg_sender env))
      else
        let contestId = contestCounter s + 1 in
        and_then (checked_add (block_timestamp env) votingDuration) (\<lambda>deadline.
          Inr (emit (ContestCreated contestId ttl deadline)
                 (set_contest contestId
                    \<lparr>title = ttl, description = descr, goals = gls, totalDeposited = 0,
                     totalInterestGenerated = 0, participantsCount = 0,
                     votingDeadline = deadline, active = True\<rparr>
                    (s\<lparr>contestCounter := contestId\<rparr>)),
               contestId)))"

definition claimInterest_internal ::
  "('t \<Rightarrow> address \<Rightarrow> uint256 \<Rightarrow> 't option) \<Rightarrow> uint256 \<Rightarrow> uint256 \<Rightarrow> address \<Rightarrow> 't ledger
     \<Rightarrow> error + 't ledger" where
  "claimInterest_internal mint currentTime contestId participantAddress s =
     (let participant = contestParticipants s contestId participantAddress in
      if \<not> 0 < depositAmount participant then Inl (Revert ''No deposit found'')
      else
        and_then (checked_sub currentTime (lastInterestClaimTime participant)) (\<lambda>elapsedTime.
        and_then (checked_mul (depositAmount participant) INTEREST_RATE) (\<lambda>product.
        and_then (checked_div product 100) (\<lambda>annualInterest.
        and_then (checked_mul annualInterest elapsedTime) (\<lambda>prorated.
        and_then (checked_div prorated SECONDS_PER_YEAR) (\<lambda>accruedInterest.
          let s1 = set_participant contestId participantAddress
                     (participant\<lparr>lastInterestClaimTime := currentTime\<rparr>) s in
          if 0 < accruedInterest then
            (case mint (tokenManager s1) participantAddress accruedInterest of
               None \<Rightarrow> Inl MintFailed
             | Some tok \<Rightarrow>
                 and_then (checked_add (totalInterestGenerated (contests s1 contestId))
                             accruedInterest) (\<lambda>total.
                   Inr (emit (InterestClaimed participantAddress contestId accruedInterest)
                          (set_contest contestId
                             ((contests s1 contestId)\<lparr>totalInterestGenerated := total\<rparr>)
                             (s1\<lparr>tokenManager := tok\<rparr>)))))
          else Inr s1))))))"

definition claimInterest ::
  "('t \<Rightarrow> address \<Rightarrow> uint256 \<Rightarrow> 't option) \<Rightarrow> call_env \<Rightarrow> uint256 \<Rightarrow> 't ledger \<Rightarrow> error + 't ledger" where
  "claimInterest mint env contestId s =
     (if msg_value env \<noteq> 0 then Inl NonPayable
      else claimInterest_internal mint (block_timestamp env) contestId (msg_sender env) s)"

definition deposit ::
  "('t \<Rightarrow> address \<Rightarrow> uint256 \<Rightarrow> 't option) \<Rightarrow> call_env \<Rightarrow> uint256 \<Rightarrow> 't ledger \<Rightarrow> error + 't ledger" where
  "deposit mint env contestId s =
     (if \<not> 0 < msg_value env then Inl (Revert ''Deposit amount must be greater than 0'')
      else if \<not> active (contests s contestId) then Inl (Revert ''Contest is not active'')
      else if hasFinished (contestParticipants s contestId (msg_sender env))
        then Inl (Revert ''Participant already finished'')
      else
        and_then
          (if depositAmount (contestParticipants s contestId (msg_sender env)) = 0 then
             and_then (checked_add (participantsCount (contests s contestId)) 1) (\<lambda>cnt.
               Inr (set_participant contestId (msg_sender env)
                      ((contestParticipants s contestId (msg_sender env))
                         \<lparr>lastInterestClaimTime := block_timestamp env\<rparr>)
                      (set_contest contestId
                         ((contests s contestId)\<lparr>participantsCount := cnt\<rparr>) s)))
           else claimInterest_internal mint (block_timestamp env) contestId (msg_sender env) s)
          (\<lambda>s1.
        and_then (checked_add (depositAmount (contestParticipants s1 contestId (msg_sender env)))
                    (msg_value env)) (\<lambda>amount.
          let s2 = set_participant contestId (msg_sender env)
                     ((contestParticipants s1 contestId (msg_sender env))
                        \<lparr>depositAmount := amount, depositTimestamp := block_timestamp env\<rparr>) s1 in
          and_then (checked_add (totalDeposited (contests s2 contestId)) (msg_value env)) (\<lambda>total.
            Inr (emit (ParticipantJoined contestId (msg_sender env) (msg_value env))
                   (set_contest contestId
                      ((contests s2 contestId)\<lparr>totalDeposited := total\<rparr>) s2))))))"

definition vote :: "call_env \<Rightarrow> uint256 \<Rightarrow> address \<Rightarrow> 't ledger \<Rightarrow> error + 't ledger" where
  "vote env contestId nominee s =
     (if msg_value env \<noteq> 0 then Inl NonPayable
      else if \<not> block_timestamp env \<le> votingDeadline (contests s contestId)
        then Inl (Revert ''Voting period has ended'')
      else if \<not> active (contests s contestId) then Inl (Revert ''Contest is not active'')
      else if \<not> 0 < depositAmount (contestParticipants s contestId (msg_sender env))
        then Inl (Revert ''You must be a participant to vote'')
      else if hasVoted (contestParticipants s contestId (msg_sender env))
        then Inl (Revert ''You have already voted'')
      else if \<not> 0 < depositAmount (contestParticipants s contestId nominee)
        then Inl (Revert ''Nominee must be a participant'')
      else
        let s1 = set_participant contestId (msg_sender env)
                   ((contestParticipants s contestId (msg_sender env))\<lparr>hasVoted := True\<rparr>) s in
        and_then (checked_add (votesReceived (contestParticipants s1 contestId nominee)) 1) (\<lambda>v.
          Inr (emit (Voted contestId (msg_sender env) nominee)
                 (set_participant contestId nominee
                    ((contestParticipants s1 contestId nominee)\<lparr>votesReceived := v\<rparr>) s1))))"

text \<open>
  The loop of \<open>getWinner\<close>. The body reads the participant stored under \<open>currentWinner\<close>
  and assigns \<open>currentWinner\<close> to itself; \<open>i\<close> stays below \<open>participantsCount\<close>, so
  \<open>i++\<close> cannot overflow.
\<close>

function getWinner_loop :: "'t ledger \<Rightarrow> uint256 \<Rightarrow> uint256 \<Rightarrow> uint256 \<Rightarrow> address \<Rightarrow> address" where
  "getWinner_loop s contestId i maxVotes currentWinner =
     (if i < participantsCount (contests s contestId) then
        (if maxVotes < votesReceived (contestParticipants s contestId currentWinner)
         then getWinner_loop s contestId (i + 1)
                (votesReceived (contestParticipants s contestId currentWinner)) currentWinner
         else getWinner_loop s contestId (i + 1) maxVotes currentWinner)
      else currentWinner)"
  by pat_completeness auto

termination
proof (relation "measure (\<lambda>(s, contestId, i, maxVotes, currentWinner).
         unat (participantsCount (contests s contestId)) - unat i)")
  have succ: "unat (i + 1) = Suc (unat i)" if "i < n" for i n :: uint256
  proof -
    have "1 + i \<noteq> 0"
    proof
      assume "1 + i = 0"
      then have "i = - 1" by (simp add: add_eq_0_iff)
      with that show False by simp
    qed
    then show ?thesis using unatSuc [of i] by (simp add: add.commute)
  qed
  have decr: "unat n - unat (i + 1) < unat n - unat i" if "i < n" for i n :: uint256
    using succ [OF that] that by (simp add: word_less_nat_alt)
  show "wf (measure (\<lambda>(s :: 't ledger, contestId, i, maxVotes :: uint256, currentWinner :: address).
         unat (participantsCount (contests s contestId)) - unat i))"
    by simp
  show "((s, contestId, i + 1, votesReceived (contestParticipants s contestId currentWinner),
           currentWinner), (s, contestId, i, maxVotes, currentWinner))
        \<in> measure (\<lambda>(s, contestId, i, maxVotes, currentWinner).
             unat (participantsCount (contests s contestId)) - unat i)"
    if "i < participantsCount (contests s contestId)"
    for s :: "'t ledger" and contestId i maxVotes :: uint256 and currentWinner :: address
    using decr [OF that] by simp
  show "((s, contestId, i + 1, maxVotes, currentWinner), (s, contestId, i, maxVotes, currentWinner))
        \<in> measure (\<lambda>(s, contestId, i, maxVotes, currentWinner).
             unat (participantsCount (contests s contestId)) - unat i)"
    if "i < participantsCount (contests s contestId)"
    for s :: "'t ledger" and contestId i maxVotes :: uint256 and currentWinner :: address
    using decr [OF that] by simp
qed

declare getWinner_loop.simps [simp del]

definition getWinner :: "uint256 \<Rightarrow> uint256 \<Rightarrow> 't ledger \<Rightarrow> error + address" where
  "getWinner now contestId s =
     (if \<not> votingDeadline (contests s contestId) < now
        then Inl (Revert ''Voting period is not over'')
      else if \<not> active (contests s contestId) then Inl (Revert ''Contest is still active'')
      else Inr (getWinner_loop s contestId 0 0 0))"

text \<open>
  \<open>endContest\<close> calls \<open>this.getWinner\<close> on the storage it has just written, at the same
  \<open>block.timestamp\<close>; a revert of that call reverts \<open>endContest\<close>.
\<close>

definition endContest :: "call_env \<Rightarrow> uint256 \<Rightarrow> 't ledger \<Rightarrow> error + 't ledger" where
  "endContest env contestId s =
     (if msg_value env \<noteq> 0 then Inl NonPayable
      else if msg_sender env \<noteq> owner s then Inl (OwnableUnauthorizedAccount (msg_sender env))
      else if \<not> active (contests s contestId) then Inl (Revert ''Contest is already inactive'')
      else
        let s1 = set_contest contestId ((contests s contestId)\<lparr>active := False\<rparr>) s in
        and_then (getWinner (block_timestamp env) contestId s1) (\<lambda>winner.
          Inr (emit (WinnerAnnounced contestId winner) s1)))"

definition getAccruedInterest :: "uint256 \<Rightarrow> uint256 \<Rightarrow> address \<Rightarrow> 't ledger \<Rightarrow> error + uint256" where
  "getAccruedInterest now contestId participantAddress s =
     (let participant = contestParticipants s contestId participantAddress in
      if depositAmount participant = 0 then Inr 0
      else
        and_then (checked_sub now (lastInterestClaimTime participant)) (\<lambda>elapsedTime.
        and_then (checked_mul (depositAmount participant) INTEREST_RATE) (\<lambda>product.
        and_then (checked_div product 100) (\<lambda>annualInterest.
        and_then (checked_mul annualInterest elapsedTime) (\<lambda>prorated.
          checked_div prorated SECONDS_PER_YEAR)))))"

text \<open>
  The two functions the ledger inherits from the Ownable base contract; they write
  \<open>owner\<close> only. \<open>receive\<close> accepts ether and writes nothing.
\<close>

definition transferOwnership :: "call_env \<Rightarrow> address \<Rightarrow> 't ledger \<Rightarrow> error + 't ledger" where
  "transferOwnership env newOwner s =
     (if msg_value env \<noteq> 0 then Inl NonPayable
      else if msg_sender env \<noteq> owner s then Inl (OwnableUnauthorizedAccount (msg_sender env))
      else if newOwner = 0 then Inl (OwnableInvalidOwner 0)
      else Inr (s\<lparr>owner := newOwner\<rparr>))"

definition renounceOwnership :: "call_env \<Rightarrow> 't ledger \<Rightarrow> error + 't ledger" where
  "renounceOwnership env s =
     (if msg_value env \<noteq> 0 then Inl NonPayable
      else if msg_sender env \<noteq> owner s then Inl (OwnableUnauthorizedAccount (msg_sender env))
      else Inr (s\<lparr>owner := 0\<rparr>))"

definition receive :: "call_env \<Rightarrow> 't ledger \<Rightarrow> error + 't ledger" where
  "receive env s = Inr s"

subsection \<open>Transactions and reachable storage\<close>

datatype call =
    CreateContest string string string uint256
  | Deposit uint256
  | ClaimInterest uint256
  | Vote uint256 address
  | EndContest uint256
  | TransferOwnership address
  | RenounceOwnership
  | Receive

fun exec :: "('t \<Rightarrow> address \<Rightarrow> uint256 \<Rightarrow> 't option) \<Rightarrow> call_env \<Rightarrow> call \<Rightarrow> 't ledger \<Rightarrow> error + 't ledger" where
  "exec mint env (CreateContest ttl descr gls votingDuration) s =
     and_then (createContest env ttl descr gls votingDuration s) (\<lambda>(s', contestId). Inr s')"
| "exec mint env (Deposit contestId) s = deposit mint env contestId s"
| "exec mint env (ClaimInterest contestId) s = claimInterest mint env contestId s"
| "exec mint env (Vote contestId nominee) s = vote env contestId nominee s"
| "exec mint env (EndContest contestId) s = endContest env contestId s"
| "exec mint env (TransferOwnership newOwner) s = transferOwnership env newOwner s"
| "exec mint env RenounceOwnership s = renounceOwnership env s"
| "exec mint env Receive s = receive env s"

fun creations :: "call \<Rightarrow> nat" where
  "creations (CreateContest ttl descr gls votingDuration) = 1"
| "creations c = 0"

text \<open>
  \<open>reachable mint n s\<close>: the storage \<open>s\<close> is the result of the constructor followed by
  successful transactions, \<open>n\<close> of which were calls of \<open>createContest\<close>.
  \<open>reaches mint s s'\<close>: successful transactions lead from \<open>s\<close> to \<open>s'\<close>.
\<close>

inductive reachable :: "('t \<Rightarrow> address \<Rightarrow> uint256 \<Rightarrow> 't option) \<Rightarrow> nat \<Rightarrow> 't ledger \<Rightarrow> bool"
  for mint :: "'t \<Rightarrow> address \<Rightarrow> uint256 \<Rightarrow> 't option" where
  reachable_init: "reachable mint 0 (constructor deployer tok)"
| reachable_step: "reachable mint n s \<Longrightarrow> exec mint env c s = Inr s'
     \<Longrightarrow> reachable mint (n + creations c) s'"

inductive reaches :: "('t \<Rightarrow> address \<Rightarrow> uint256 \<Rightarrow> 't option) \<Rightarrow> 't ledger \<Rightarrow> 't ledger \<Rightarrow> bool"
  for mint :: "'t \<Rightarrow> address \<Rightarrow> uint256 \<Rightarrow> 't option" where
  reaches_refl: "reaches mint s s"
| reaches_step: "reaches mint s s' \<Longrightarrow> exec mint env c s' = Inr s'' \<Longrightarrow> reaches mint s s''"

subsection \<open>The accrual formula of the specification\<close>

text \<open>
  \<open>accrued = floor(floor(depositAmount * r / 100) * \<Delta>t / SECONDS_PER_YEAR)\<close> with
  \<open>r = 5\<close>, on natural numbers without bound.
\<close>

definition accrued_spec :: "nat \<Rightarrow> nat \<Rightarrow> nat" where
  "accrued_spec d dt = ((d * 5) div 100) * dt div (365 * 24 * 60 * 60)"

text \<open>
  Modelled from the spec: \<open>mint(address, amount)\<close> of the reward token, whose contract
  is not among the sources, is an external capability that may fail. The operations
  take it as their parameter \<open>mint\<close>; the examples use this token, which records
  every mint and never reverts.
\<close>

definition mint_log :: "(address \<times> uint256) list \<Rightarrow> address \<Rightarrow> uint256 \<Rightarrow> (address \<times> uint256) list option" where
  "mint_log tok a n = Some (tok @ [(a, n)])"

text \<open>
  Settlement in the words of the specification: \<open>lastInterestClaimTime\<close> is reset to
  \<open>now\<close> whether or not anything accrued; if \<open>accrued > 0\<close>, that amount is minted to
  the participant, added to \<open>totalInterestGenerated\<close> and announced by an event.
\<close>

definition settle_spec ::
  "('t \<Rightarrow> address \<Rightarrow> uint256 \<Rightarrow> 't option) \<Rightarrow> uint256 \<Rightarrow> uint256 \<Rightarrow> address \<Rightarrow> uint256 \<Rightarrow> 't ledger
     \<Rightarrow> error + 't ledger" where
  "settle_spec mint now contestId a accrued s =
     (let s1 = set_participant contestId a
                 ((contestParticipants s contestId a)\<lparr>lastInterestClaimTime := now\<rparr>) s in
      if accrued = 0 then Inr s1
      else case mint (tokenManager s) a accrued of
             None \<Rightarrow> Inl MintFailed
           | Some tok \<Rightarrow>
               and_then (checked_add (totalInterestGenerated (contests s contestId)) accrued)
                 (\<lambda>total. Inr (emit (InterestClaimed a contestId accrued)
                    (set_contest contestId ((contests s contestId)\<lparr>totalInterestGenerated := total\<rparr>)
                       (s1\<lparr>tokenManager := tok\<rparr>)))))"

text \<open>
  The computation of the accrued interest does not revert: the clock has not gone back
  behind the last settlement and neither product exceeds \<open>uint256\<close>.
\<close>

definition no_overflow :: "uint256 \<Rightarrow> uint256 \<Rightarrow> uint256 \<Rightarrow> bool" where
  "no_overflow d lst now \<longleftrightarrow>
     lst \<le> now \<and> unat d * 5 < 2 ^ 256 \<and> (unat d * 5 div 100) * (unat now - unat lst) < 2 ^ 256"


subsection \<open>Example transactions\<close>

text \<open>
  Address 1 deploys the ledger and at time 0 creates contest 1 with a voting window of
  3600 seconds (\<open>ex_created\<close>); address 2 deposits 1000 at time 0 (\<open>ex_joined\<close>) and
  votes for itself at time 10 (\<open>ex_voted\<close>).
\<close>

definition env_at :: "address \<Rightarrow> uint256 \<Rightarrow> uint256 \<Rightarrow> call_env" where
  "env_at a v t = \<lparr>msg_sender = a, msg_value = v, block_timestamp = t\<rparr>"

definition ex_created :: "(address \<times> uint256) list ledger" where
  "ex_created =
     emit (ContestCreated 1 ''c'' 3600)
       (set_contest 1
          \<lparr>title = ''c'', description = ''d'', goals = ''g'', totalDeposited = 0,
           totalInterestGenerated = 0, participantsCount = 0, votingDeadline = 3600,
           active = True\<rparr>
          ((constructor 1 [])\<lparr>contestCounter := 1\<rparr>))"

definition ex_joined :: "(address \<times> uint256) list ledger" where
  "ex_joined =
     emit (ParticipantJoined 1 2 1000)
       (set_contest 1 ((contests ex_created 1)\<lparr>totalDeposited := 1000, participantsCount := 1\<rparr>)
          (set_participant 1 2 (zero_Participant\<lparr>depositAmount := 1000\<rparr>) ex_created))"

definition ex_voted :: "(address \<times> uint256) list ledger" where
  "ex_voted =
     emit (Voted 1 2 2)
       (set_participant 1 2
          (zero_Participant\<lparr>depositAmount := 1000, votesReceived := 1, hasVoted := True\<rparr>) ex_joined)"

definition ex_claimed :: "(address \<times> uint256) list ledger" where
  "ex_claimed =
     emit (InterestClaimed 2 1 50)
       (set_contest 1 ((contests ex_joined 1)\<lparr>totalInterestGenerated := 50\<rparr>)
          ((set_participant 1 2
              (zero_Participant\<lparr>depositAmount := 1000, lastInterestClaimTime := 31536000\<rparr>)
              ex_joined)\<lparr>tokenManager := [(2, 50)]\<rparr>))"

definition ex_topped :: "(address \<times> uint256) list ledger" where
  "ex_topped =
     emit (ParticipantJoined 1 2 500)
       (set_contest 1 ((contests ex_claimed 1)\<lparr>totalDeposited := 1500\<rparr>)
          (set_participant 1 2
             (zero_Participant\<lparr>depositAmount := 1500, depositTimestamp := 31536000,
                lastInterestClaimTime := 31536000\<rparr>)
             ex_claimed))"

text \<open>
  The invariant of the storage after \<open>n\<close> contest creations: the counter is \<open>n\<close>; the
  contests created so far are \<open>1, \<dots>, n\<close>, every other identifier still holds the zero
  contest and zero participants; and the books of every contest balance.
\<close>

definition ledger_inv :: "nat \<Rightarrow> 't ledger \<Rightarrow> bool" where
  "ledger_inv n s \<longleftrightarrow>
     unat (contestCounter s) = n
     \<and> (\<forall>contestId. contestId = 0 \<or> n < unat contestId \<longrightarrow>
           contests s contestId = zero_ContestDetails
           \<and> (\<forall>a. contestParticipants s contestId a = zero_Participant))
     \<and> (\<forall>contestId. unat (totalDeposited (contests s contestId))
           = (\<Sum>a\<in>UNIV. unat (depositAmount (contestParticipants s contestId a))))"

section \<open>Basic facts\<close>

lemma and_then_Inl [simp]: "and_then (Inl e) f = Inl e"
  by (simp add: and_then_def)

lemma and_then_Inr [simp]: "and_then (Inr x) f = f x"
  by (simp add: and_then_def)

lemma getWinner_loop_const: "getWinner_loop s contestId i maxVotes currentWinner = currentWinner"
  by (induction s contestId i maxVotes currentWinner rule: getWinner_loop.induct)
     (subst getWinner_loop.simps, simp)


lemma getWinner_result:
  "getWinner now contestId s =
     (if now \<le> votingDeadline (contests s contestId) then Inl VotingStillOpen
      else if \<not> active (contests s contestId) then Inl ContestStillActive
      else Inr 0)"
  by (simp add: getWinner_def getWinner_loop_const VotingStillOpen_def ContestStillActive_def
        not_less)



lemma ex_created_exec:
  "exec mint_log (env_at 1 0 0) (CreateContest ''c'' ''d'' ''g'' 3600) (constructor 1 []) = Inr ex_created"
  by (simp add: createContest_def env_at_def constructor_def checked_add_def ex_created_def Let_def)

lemma ex_joined_exec:
  "exec mint_log (env_at 2 1000 0) (Deposit 1) ex_created = Inr ex_joined"
  by (simp add: deposit_def env_at_def constructor_def checked_add_def ex_created_def ex_joined_def Let_def
    set_contest_def set_participant_def emit_def zero_ContestDetails_def zero_Participant_def)

lemma ex_voted_exec:
  "exec mint_log (env_at 2 0 10) (Vote 1 2) ex_joined = Inr ex_voted"
  by (simp add: vote_def env_at_def constructor_def checked_add_def ex_created_def ex_joined_def ex_voted_def Let_def
    set_contest_def set_participant_def emit_def zero_ContestDetails_def zero_Participant_def)

lemma and_then_eq_Inr: "and_then r f = Inr y \<longleftrightarrow> (\<exists>x. r = Inr x \<and> f x = Inr y)"
  by (cases r) simp_all

lemma checked_add_Inr: "checked_add a b = Inr c \<longleftrightarrow> unat a + unat b < 2 ^ 256 \<and> c = a + b"
  by (auto simp: checked_add_def)

lemma unat_add_256: "unat a + unat b < 2 ^ 256 \<Longrightarrow> unat (a + b) = unat a + unat b"
  for a b :: uint256
  using unat_add_lem [of a b] by simp

lemma unat_mul_256: "unat a * unat b < 2 ^ 256 \<Longrightarrow> unat (a * b) = unat a * unat b"
  for a b :: uint256
  using unat_mult_lem [of a b] by simp

lemma checked_add_unat: "checked_add a b = Inr c \<Longrightarrow> unat c = unat a + unat b"
  using unat_add_256 [of a b] by (auto simp: checked_add_def split: if_splits)

lemma checked_mul_unat: "checked_mul a b = Inr c \<Longrightarrow> unat c = unat a * unat b"
  using unat_mul_256 [of a b] by (auto simp: checked_mul_def split: if_splits)

lemma checked_sub_Inr: "checked_sub a b = Inr c \<longleftrightarrow> b \<le> a \<and> c = a - b"
  by (auto simp: checked_sub_def)

lemma checked_mul_Inr: "checked_mul a b = Inr c \<longleftrightarrow> unat a * unat b < 2 ^ 256 \<and> c = a * b"
  by (auto simp: checked_mul_def)

lemma checked_div_Inr: "checked_div a b = Inr c \<longleftrightarrow> b \<noteq> 0 \<and> c = a div b"
  by (auto simp: checked_div_def)

lemma claimInterest_internal_effect:
  assumes "claimInterest_internal mint now contestId a s = Inr s'"
  shows "0 < depositAmount (contestParticipants s contestId a)"
    and "contestParticipants s' = (contestParticipants s)
           (contestId := (contestParticipants s contestId)
              (a := (contestParticipants s contestId a)\<lparr>lastInterestClaimTime := now\<rparr>))"
    and "\<exists>total. contests s' = (contests s)
           (contestId := (contests s contestId)\<lparr>totalInterestGenerated := total\<rparr>)"
    and "contestCounter s' = contestCounter s"
    and "owner s' = owner s"
proof -
  let ?p = "contestParticipants s contestId a"
  let ?s1 = "set_participant contestId a (?p\<lparr>lastInterestClaimTime := now\<rparr>) s"
  from assms show pos: "0 < depositAmount ?p"
    by (simp add: claimInterest_internal_def Let_def split: if_splits)
  from assms pos obtain accrued where
    tail: "(if 0 < accrued then
            (case mint (tokenManager ?s1) a accrued of
               None \<Rightarrow> Inl MintFailed
             | Some tok \<Rightarrow>
                 and_then (checked_add (totalInterestGenerated (contests ?s1 contestId)) accrued)
                   (\<lambda>total. Inr (emit (InterestClaimed a contestId accrued)
                          (set_contest contestId
                             ((contests ?s1 contestId)\<lparr>totalInterestGenerated := total\<rparr>)
                             (?s1\<lparr>tokenManager := tok\<rparr>)))))
          else Inr ?s1) = Inr s'"
    by (auto simp: claimInterest_internal_def Let_def and_then_eq_Inr)
  show "contestParticipants s' = (contestParticipants s)
           (contestId := (contestParticipants s contestId) (a := ?p\<lparr>lastInterestClaimTime := now\<rparr>))"
    using tail
    by (auto simp: and_then_eq_Inr set_participant_def set_contest_def emit_def
          split: if_splits option.splits)
  show "\<exists>total. contests s' = (contests s)
           (contestId := (contests s contestId)\<lparr>totalInterestGenerated := total\<rparr>)"
  proof (cases "0 < accrued")
    case True
    with tail show ?thesis
      by (auto simp: and_then_eq_Inr set_participant_def set_contest_def emit_def
            split: option.splits)
  next
    case False
    with tail have "contests s' = contests s"
      by (auto simp: set_participant_def)
    then have "contests s' = (contests s)
           (contestId := (contests s contestId)\<lparr>totalInterestGenerated :=
               totalInterestGenerated (contests s contestId)\<rparr>)"
      by simp
    then show ?thesis ..
  qed
  show "contestCounter s' = contestCounter s"
    using tail
    by (auto simp: and_then_eq_Inr set_participant_def set_contest_def emit_def
          split: if_splits option.splits)
  show "owner s' = owner s"
    using tail
    by (auto simp: and_then_eq_Inr set_participant_def set_contest_def emit_def
          split: if_splits option.splits)
qed

lemma accrual_words:
  fixes d lst now :: uint256
  assumes "no_overflow d lst now"
  shows "checked_sub now lst = Inr (now - lst)"
    and "checked_mul d INTEREST_RATE = Inr (d * 5)"
    and "checked_div (d * 5) 100 = Inr (d * 5 div 100)"
    and "checked_mul (d * 5 div 100) (now - lst) = Inr (d * 5 div 100 * (now - lst))"
    and "checked_div (d * 5 div 100 * (now - lst)) SECONDS_PER_YEAR
           = Inr (d * 5 div 100 * (now - lst) div SECONDS_PER_YEAR)"
    and "unat (d * 5 div 100 * (now - lst) div SECONDS_PER_YEAR)
           = accrued_spec (unat d) (unat now - unat lst)"
proof -
  from assms have le: "lst \<le> now" and m1: "unat d * unat (5 :: uint256) < 2 ^ 256"
    and m2: "(unat d * 5 div 100) * (unat now - unat lst) < 2 ^ 256"
    by (simp_all add: no_overflow_def)
  have u1: "unat (d * 5) = unat d * 5"
    using unat_mul_256 [OF m1] by simp
  have u2: "unat (d * 5 div 100) = unat d * 5 div 100"
    by (simp add: unat_div u1)
  have u3: "unat (now - lst) = unat now - unat lst"
    using le by (simp add: unat_sub)
  have m2': "unat (d * 5 div 100) * unat (now - lst) < 2 ^ 256"
    using m2 by (simp only: u2 u3)
  have u4: "unat (d * 5 div 100 * (now - lst)) = (unat d * 5 div 100) * (unat now - unat lst)"
    using unat_mul_256 [OF m2'] by (simp only: u2 u3)
  show "checked_sub now lst = Inr (now - lst)"
    using le by (simp add: checked_sub_def)
  show "checked_mul d INTEREST_RATE = Inr (d * 5)"
    using m1 by (simp add: checked_mul_def INTEREST_RATE_def)
  show "checked_div (d * 5) 100 = Inr (d * 5 div 100)"
    by (simp add: checked_div_def)
  show "checked_mul (d * 5 div 100) (now - lst) = Inr (d * 5 div 100 * (now - lst))"
    using m2' by (simp add: checked_mul_def)
  show "checked_div (d * 5 div 100 * (now - lst)) SECONDS_PER_YEAR
           = Inr (d * 5 div 100 * (now - lst) div SECONDS_PER_YEAR)"
    by (simp add: checked_div_def SECONDS_PER_YEAR_def)
  show "unat (d * 5 div 100 * (now - lst) div SECONDS_PER_YEAR)
           = accrued_spec (unat d) (unat now - unat lst)"
    by (simp add: unat_div u4 accrued_spec_def SECONDS_PER_YEAR_def)
qed

lemma accrual_word_of_nat:
  fixes d lst now :: uint256
  assumes "no_overflow d lst now"
  shows "word_of_nat (accrued_spec (unat d) (unat now - unat lst))
           = d * 5 div 100 * (now - lst) div SECONDS_PER_YEAR"
  using accrual_words(6) [OF assms, symmetric] by simp

lemma getAccruedInterest_no_overflow:
  assumes "0 < depositAmount (contestParticipants s contestId a)"
    and "no_overflow (depositAmount (contestParticipants s contestId a))
           (lastInterestClaimTime (contestParticipants s contestId a)) now"
  shows "getAccruedInterest now contestId a s =
           Inr (word_of_nat (accrued_spec (unat (depositAmount (contestParticipants s contestId a)))
                  (unat now - unat (lastInterestClaimTime (contestParticipants s contestId a)))))"
  using assms(1) accrual_words(1-5) [OF assms(2)]
  by (simp add: getAccruedInterest_def Let_def accrual_word_of_nat [OF assms(2)])

lemma claimInterest_internal_no_overflow:
  assumes "0 < depositAmount (contestParticipants s contestId a)"
    and "no_overflow (depositAmount (contestParticipants s contestId a))
           (lastInterestClaimTime (contestParticipants s contestId a)) now"
  shows "claimInterest_internal mint now contestId a s =
           settle_spec mint now contestId a
             (word_of_nat (accrued_spec (unat (depositAmount (contestParticipants s contestId a)))
                  (unat now - unat (lastInterestClaimTime (contestParticipants s contestId a))))) s"
  using assms(1) accrual_words(1-5) [OF assms(2)]
  by (simp add: claimInterest_internal_def settle_spec_def Let_def accrual_word_of_nat [OF assms(2)]
        set_participant_def word_greater_zero_iff split: option.splits)

lemma getAccruedInterest_overflow:
  assumes "0 < depositAmount (contestParticipants s contestId a)"
    and "\<not> no_overflow (depositAmount (contestParticipants s contestId a))
           (lastInterestClaimTime (contestParticipants s contestId a)) now"
  shows "getAccruedInterest now contestId a s = Inl Panic"
proof -
  let ?d = "depositAmount (contestParticipants s contestId a)"
  let ?l = "lastInterestClaimTime (contestParticipants s contestId a)"
  show ?thesis
  proof (cases "?l \<le> now")
    case False
    with assms(1) show ?thesis
      by (simp add: getAccruedInterest_def Let_def checked_sub_def)
  next
    case le: True
    show ?thesis
    proof (cases "unat ?d * 5 < 2 ^ 256")
      case False
      with assms(1) le show ?thesis
        by (simp add: getAccruedInterest_def Let_def checked_sub_def checked_mul_def INTEREST_RATE_def)
    next
      case m1: True
      then have m1': "unat ?d * unat (5 :: uint256) < 2 ^ 256" by simp
      have u1: "unat (?d * 5) = unat ?d * 5"
        using unat_mul_256 [OF m1'] by simp
      have u2: "unat (?d * 5 div 100) = unat ?d * 5 div 100"
        by (simp add: unat_div u1)
      have u3: "unat (now - ?l) = unat now - unat ?l"
        using le by (simp add: unat_sub)
      from assms(2) have "\<not> (?l \<le> now \<and> unat ?d * 5 < 2 ^ 256
          \<and> (unat ?d * 5 div 100) * (unat now - unat ?l) < 2 ^ 256)"
        unfolding no_overflow_def .
      with le m1 have "\<not> (unat ?d * 5 div 100) * (unat now - unat ?l) < 2 ^ 256"
        by blast
      then have "\<not> unat (?d * 5 div 100) * unat (now - ?l) < 2 ^ 256"
        by (simp only: u2 u3 simp_thms)
      with assms(1) le m1 show ?thesis
        by (simp add: getAccruedInterest_def Let_def checked_sub_def checked_mul_def
              checked_div_def INTEREST_RATE_def)
    qed
  qed
qed

lemma endContest_reverts: "\<exists>e. endContest env contestId s = Inl e"
  by (simp add: endContest_def getWinner_result set_contest_def Let_def)

lemma deposit_Inr:
  assumes "deposit mint env contestId s = Inr s'"
  obtains s1 where
    "0 < msg_value env" and "active (contests s contestId)"
    and "\<not> hasFinished (contestParticipants s contestId (msg_sender env))"
    and "depositAmount (contestParticipants s contestId (msg_sender env)) = 0 \<Longrightarrow>
           unat (participantsCount (contests s contestId)) + 1 < 2 ^ 256
           \<and> s1 = set_participant contestId (msg_sender env)
                  ((contestParticipants s contestId (msg_sender env))
                     \<lparr>lastInterestClaimTime := block_timestamp env\<rparr>)
                  (set_contest contestId
                     ((contests s contestId)
                        \<lparr>participantsCount := participantsCount (contests s contestId) + 1\<rparr>) s)"
    and "depositAmount (contestParticipants s contestId (msg_sender env)) \<noteq> 0 \<Longrightarrow>
           claimInterest_internal mint (block_timestamp env) contestId (msg_sender env) s = Inr s1"
    and "unat (depositAmount (contestParticipants s1 contestId (msg_sender env)))
           + unat (msg_value env) < 2 ^ 256"
    and "unat (totalDeposited (contests s1 contestId)) + unat (msg_value env) < 2 ^ 256"
    and "s' = emit (ParticipantJoined contestId (msg_sender env) (msg_value env))
           (set_contest contestId
              ((contests s1 contestId)
                 \<lparr>totalDeposited := totalDeposited (contests s1 contestId) + msg_value env\<rparr>)
              (set_participant contestId (msg_sender env)
                 ((contestParticipants s1 contestId (msg_sender env))
                    \<lparr>depositAmount := depositAmount (contestParticipants s1 contestId (msg_sender env))
                        + msg_value env,
                     depositTimestamp := block_timestamp env\<rparr>) s1))"
proof -
  let ?a = "msg_sender env"
  from assms have pre: "0 < msg_value env" "active (contests s contestId)"
      "\<not> hasFinished (contestParticipants s contestId ?a)"
    by (simp_all add: deposit_def split: if_splits)
  let ?branch = "if depositAmount (contestParticipants s contestId ?a) = 0 then
             and_then (checked_add (participantsCount (contests s contestId)) 1) (\<lambda>cnt.
               Inr (set_participant contestId ?a
                      ((contestParticipants s contestId ?a)
                         \<lparr>lastInterestClaimTime := block_timestamp env\<rparr>)
                      (set_contest contestId
                         ((contests s contestId)\<lparr>participantsCount := cnt\<rparr>) s)))
           else claimInterest_internal mint (block_timestamp env) contestId ?a s"
  from assms pre obtain s1 where b: "?branch = Inr s1"
    and rest: "and_then (checked_add (depositAmount (contestParticipants s1 contestId ?a))
                    (msg_value env)) (\<lambda>amount.
          let s2 = set_participant contestId ?a
                     ((contestParticipants s1 contestId ?a)
                        \<lparr>depositAmount := amount, depositTimestamp := block_timestamp env\<rparr>) s1 in
          and_then (checked_add (totalDeposited (contests s2 contestId)) (msg_value env)) (\<lambda>total.
            Inr (emit (ParticipantJoined contestId ?a (msg_value env))
                   (set_contest contestId
                      ((contests s2 contestId)\<lparr>totalDeposited := total\<rparr>) s2)))) = Inr s'"
    unfolding deposit_def by (simp add: and_then_eq_Inr) blast
  from rest have r1: "unat (depositAmount (contestParticipants s1 contestId ?a))
           + unat (msg_value env) < 2 ^ 256"
    and r2: "unat (totalDeposited (contests s1 contestId)) + unat (msg_value env) < 2 ^ 256"
    and r3: "s' = emit (ParticipantJoined contestId ?a (msg_value env))
           (set_contest contestId
              ((contests s1 contestId)
                 \<lparr>totalDeposited := totalDeposited (contests s1 contestId) + msg_value env\<rparr>)
              (set_participant contestId ?a
                 ((contestParticipants s1 contestId ?a)
                    \<lparr>depositAmount := depositAmount (contestParticipants s1 contestId ?a)
                        + msg_value env,
                     depositTimestamp := block_timestamp env\<rparr>) s1))"
    by (auto simp: and_then_eq_Inr checked_add_Inr Let_def set_participant_def)
  have first: "unat (participantsCount (contests s contestId)) + 1 < 2 ^ 256
           \<and> s1 = set_participant contestId ?a
                  ((contestParticipants s contestId ?a)
                     \<lparr>lastInterestClaimTime := block_timestamp env\<rparr>)
                  (set_contest contestId
                     ((contests s contestId)
                        \<lparr>participantsCount := participantsCount (contests s contestId) + 1\<rparr>) s)"
    if "depositAmount (contestParticipants s contestId ?a) = 0"
    using b that by (auto simp: and_then_eq_Inr checked_add_Inr)
  have later: "claimInterest_internal mint (block_timestamp env) contestId ?a s = Inr s1"
    if "depositAmount (contestParticipants s contestId ?a) \<noteq> 0"
    using b that by simp
  from pre first later r1 r2 r3 show thesis by (rule that)
qed


lemma deposit_fields:
  assumes "deposit mint env contestId s = Inr s'"
  shows "contestParticipants s' = (contestParticipants s)
           (contestId := (contestParticipants s contestId)
              (msg_sender env := (contestParticipants s contestId (msg_sender env))
                 \<lparr>lastInterestClaimTime := block_timestamp env,
                  depositAmount := depositAmount (contestParticipants s contestId (msg_sender env))
                     + msg_value env,
                  depositTimestamp := block_timestamp env\<rparr>))"
    and "unat (depositAmount (contestParticipants s contestId (msg_sender env)) + msg_value env)
           = unat (depositAmount (contestParticipants s contestId (msg_sender env)))
             + unat (msg_value env)"
    and "\<exists>c. contests s' = (contests s)(contestId := c) \<and> active c
           \<and> votingDeadline c = votingDeadline (contests s contestId)
           \<and> unat (totalDeposited c)
               = unat (totalDeposited (contests s contestId)) + unat (msg_value env)"
    and "contestCounter s' = contestCounter s"
    and "owner s' = owner s"
proof -
  let ?a = "msg_sender env"
  let ?p = "contestParticipants s contestId ?a"
  from assms obtain s1 where act: "active (contests s contestId)"
    and first: "depositAmount ?p = 0 \<Longrightarrow>
           unat (participantsCount (contests s contestId)) + 1 < 2 ^ 256
           \<and> s1 = set_participant contestId ?a (?p\<lparr>lastInterestClaimTime := block_timestamp env\<rparr>)
                  (set_contest contestId
                     ((contests s contestId)
                        \<lparr>participantsCount := participantsCount (contests s contestId) + 1\<rparr>) s)"
    and later: "depositAmount ?p \<noteq> 0 \<Longrightarrow>
           claimInterest_internal mint (block_timestamp env) contestId ?a s = Inr s1"
    and r1: "unat (depositAmount (contestParticipants s1 contestId ?a))
           + unat (msg_value env) < 2 ^ 256"
    and r2: "unat (totalDeposited (contests s1 contestId)) + unat (msg_value env) < 2 ^ 256"
    and r3: "s' = emit (ParticipantJoined contestId ?a (msg_value env))
           (set_contest contestId
              ((contests s1 contestId)
                 \<lparr>totalDeposited := totalDeposited (contests s1 contestId) + msg_value env\<rparr>)
              (set_participant contestId ?a
                 ((contestParticipants s1 contestId ?a)
                    \<lparr>depositAmount := depositAmount (contestParticipants s1 contestId ?a)
                        + msg_value env,
                     depositTimestamp := block_timestamp env\<rparr>) s1))"
    by (rule deposit_Inr) (rule that; assumption)
  have s1: "contestParticipants s1 = (contestParticipants s)
           (contestId := (contestParticipants s contestId)
              (?a := ?p\<lparr>lastInterestClaimTime := block_timestamp env\<rparr>))
      \<and> (\<exists>c. contests s1 = (contests s)(contestId := c) \<and> active c
           \<and> votingDeadline c = votingDeadline (contests s contestId)
           \<and> totalDeposited c = totalDeposited (contests s contestId))
      \<and> contestCounter s1 = contestCounter s \<and> owner s1 = owner s"
  proof (cases "depositAmount ?p = 0")
    case True
    from first [OF True] act show ?thesis
      by (auto simp: set_participant_def set_contest_def)
  next
    case False
    from claimInterest_internal_effect [OF later [OF False]] act show ?thesis
      by auto
  qed
  then obtain c where c: "contests s1 = (contests s)(contestId := c)" "active c"
      "votingDeadline c = votingDeadline (contests s contestId)"
      "totalDeposited c = totalDeposited (contests s contestId)"
    by blast
  from s1 have p1: "contestParticipants s1 contestId ?a
      = ?p\<lparr>lastInterestClaimTime := block_timestamp env\<rparr>"
    by simp
  show "contestParticipants s' = (contestParticipants s)
           (contestId := (contestParticipants s contestId)
              (?a := ?p\<lparr>lastInterestClaimTime := block_timestamp env,
                  depositAmount := depositAmount ?p + msg_value env,
                  depositTimestamp := block_timestamp env\<rparr>))"
    using s1 by (simp add: r3 emit_def set_contest_def set_participant_def)
  show "unat (depositAmount ?p + msg_value env) = unat (depositAmount ?p) + unat (msg_value env)"
    using r1 unat_add_256 [of "depositAmount ?p" "msg_value env"] by (simp add: p1)
  have "unat (totalDeposited c + msg_value env)
      = unat (totalDeposited (contests s contestId)) + unat (msg_value env)"
    using r2 c unat_add_256 [of "totalDeposited c" "msg_value env"] by simp
  with c have "contests s' = (contests s)
        (contestId := c\<lparr>totalDeposited := totalDeposited c + msg_value env\<rparr>)
      \<and> active (c\<lparr>totalDeposited := totalDeposited c + msg_value env\<rparr>)
      \<and> votingDeadline (c\<lparr>totalDeposited := totalDeposited c + msg_value env\<rparr>)
          = votingDeadline (contests s contestId)
      \<and> unat (totalDeposited (c\<lparr>totalDeposited := totalDeposited c + msg_value env\<rparr>))
          = unat (totalDeposited (contests s contestId)) + unat (msg_value env)"
    by (simp add: r3 emit_def set_contest_def set_participant_def)
  then show "\<exists>c. contests s' = (contests s)(contestId := c) \<and> active c
           \<and> votingDeadline c = votingDeadline (contests s contestId)
           \<and> unat (totalDeposited c)
               = unat (totalDeposited (contests s contestId)) + unat (msg_value env)"
    by blast
  show "contestCounter s' = contestCounter s"
    using s1 by (simp add: r3 emit_def set_contest_def set_participant_def)
  show "owner s' = owner s"
    using s1 by (simp add: r3 emit_def set_contest_def set_participant_def)
qed

lemma set_participant_same [simp]:
  "set_participant contestId a (contestParticipants s contestId a) s = s"
  by (simp add: set_participant_def)

lemma claimInterest_internal_again:
  assumes "claimInterest_internal mint now contestId a s = Inr s'"
  shows "claimInterest_internal mint' now contestId a s' = Inr s'"
    and "getAccruedInterest now contestId a s' = Inr 0"
    and "lastInterestClaimTime (contestParticipants s' contestId a) = now"
proof -
  let ?p = "contestParticipants s contestId a"
  from claimInterest_internal_effect(1,2) [OF assms]
  have pos: "0 < depositAmount ?p"
    and p': "contestParticipants s' contestId a = ?p\<lparr>lastInterestClaimTime := now\<rparr>"
    by simp_all
  from assms pos obtain product where
    mul: "checked_mul (depositAmount ?p) INTEREST_RATE = Inr product"
    by (auto simp: claimInterest_internal_def Let_def and_then_eq_Inr)
  have same: "(contestParticipants s' contestId a)\<lparr>lastInterestClaimTime := now\<rparr>
      = contestParticipants s' contestId a"
    by (simp add: p')
  show "lastInterestClaimTime (contestParticipants s' contestId a) = now"
    by (simp add: p')
  show "claimInterest_internal mint' now contestId a s' = Inr s'"
    using pos mul
    by (simp add: claimInterest_internal_def Let_def same)
       (simp add: p' checked_sub_def checked_div_def checked_mul_def SECONDS_PER_YEAR_def)
  show "getAccruedInterest now contestId a s' = Inr 0"
    using pos mul
    by (simp add: getAccruedInterest_def Let_def p' checked_sub_def checked_div_def
          checked_mul_def SECONDS_PER_YEAR_def)
qed


lemmas ex_defs = ex_created_def ex_joined_def ex_voted_def ex_claimed_def ex_topped_def
  constructor_def set_contest_def set_participant_def emit_def zero_Participant_def
  zero_ContestDetails_def env_at_def

lemma ex_claimed_exec:
  "claimInterest mint_log (env_at 2 0 31536000) 1 ex_joined = Inr ex_claimed"
  by (simp add: claimInterest_def claimInterest_internal_def Let_def checked_sub_def
        checked_mul_def checked_div_def checked_add_def INTEREST_RATE_def SECONDS_PER_YEAR_def
        mint_log_def ex_defs)

lemma ex_topped_exec:
  "deposit mint_log (env_at 2 500 31536000) 1 ex_joined = Inr ex_topped"
  by (simp add: deposit_def claimInterest_internal_def Let_def checked_sub_def
        checked_mul_def checked_div_def checked_add_def INTEREST_RATE_def SECONDS_PER_YEAR_def
        mint_log_def ex_defs)

lemma createContest_Inr:
  assumes "createContest env ttl descr gls votingDuration s = Inr (s', contestId)"
  shows "contestId = contestCounter s + 1"
    and "contestCounter s' = contestCounter s + 1"
    and "contestParticipants s' = contestParticipants s"
    and "\<exists>deadline. contests s' = (contests s)(contestCounter s + 1 :=
           \<lparr>title = ttl, description = descr, goals = gls, totalDeposited = 0,
            totalInterestGenerated = 0, participantsCount = 0,
            votingDeadline = deadline, active = True\<rparr>)"
  using assms
  by (auto simp: createContest_def Let_def and_then_eq_Inr set_contest_def emit_def
        split: if_splits)

lemma vote_Inr:
  assumes "vote env contestId nominee s = Inr s'"
  shows "block_timestamp env \<le> votingDeadline (contests s contestId)"
    and "active (contests s contestId)"
    and "0 < depositAmount (contestParticipants s contestId (msg_sender env))"
    and "\<not> hasVoted (contestParticipants s contestId (msg_sender env))"
    and "0 < depositAmount (contestParticipants s contestId nominee)"
    and "contests s' = contests s"
    and "contestCounter s' = contestCounter s"
    and "hasVoted (contestParticipants s' contestId (msg_sender env))"
    and "depositAmount (contestParticipants s' c a) = depositAmount (contestParticipants s c a)"
    and "hasVoted (contestParticipants s c a) \<Longrightarrow> hasVoted (contestParticipants s' c a)"
    and "c \<noteq> contestId \<Longrightarrow> contestParticipants s' c = contestParticipants s c"
proof -
  from assms show pre: "block_timestamp env \<le> votingDeadline (contests s contestId)"
      "active (contests s contestId)"
      "0 < depositAmount (contestParticipants s contestId (msg_sender env))"
      "\<not> hasVoted (contestParticipants s contestId (msg_sender env))"
      "0 < depositAmount (contestParticipants s contestId nominee)"
    by (simp_all add: vote_def split: if_splits)
  let ?s1 = "set_participant contestId (msg_sender env)
               ((contestParticipants s contestId (msg_sender env))\<lparr>hasVoted := True\<rparr>) s"
  from assms pre have s': "s' = emit (Voted contestId (msg_sender env) nominee)
        (set_participant contestId nominee
           ((contestParticipants ?s1 contestId nominee)
              \<lparr>votesReceived := votesReceived (contestParticipants ?s1 contestId nominee) + 1\<rparr>)
           ?s1)"
    by (auto simp: vote_def Let_def and_then_eq_Inr checked_add_Inr split: if_splits)
  show "contests s' = contests s" "contestCounter s' = contestCounter s"
    by (simp_all add: s' emit_def set_participant_def)
  show "hasVoted (contestParticipants s' contestId (msg_sender env))"
    by (simp add: s' emit_def set_participant_def)
  show "depositAmount (contestParticipants s' c a) = depositAmount (contestParticipants s c a)"
    by (simp add: s' emit_def set_participant_def)
  show "hasVoted (contestParticipants s' c a)" if "hasVoted (contestParticipants s c a)"
    using that by (auto simp: s' emit_def set_participant_def)
  show "contestParticipants s' c = contestParticipants s c" if "c \<noteq> contestId"
    using that by (simp add: s' emit_def set_participant_def)
qed

lemma exec_keeps_voter:
  assumes "exec mint env c s = Inr s'"
    and "hasVoted (contestParticipants s contestId a)"
    and "0 < depositAmount (contestParticipants s contestId a)"
  shows "hasVoted (contestParticipants s' contestId a)
    \<and> 0 < depositAmount (contestParticipants s' contestId a)"
proof (cases c)
  case (CreateContest ttl descr gls votingDuration)
  with assms(1) obtain k where "createContest env ttl descr gls votingDuration s = Inr (s', k)"
    by (auto simp: and_then_eq_Inr)
  from createContest_Inr(3) [OF this] assms(2,3) show ?thesis by simp
next
  case (Deposit k)
  with assms(1) have d: "deposit mint env k s = Inr s'" by simp
  note f = deposit_fields(1,2) [OF d]
  show ?thesis
  proof (cases "k = contestId \<and> msg_sender env = a")
    case True
    from f(2) True assms(3)
    have "0 < unat (depositAmount (contestParticipants s contestId a) + msg_value env)"
      by (simp add: word_greater_zero_iff unat_gt_0)
    with True assms(2) show ?thesis
      by (simp add: f(1) word_greater_zero_iff unat_gt_0)
  next
    case False
    with assms(2,3) show ?thesis by (auto simp: f(1))
  qed
next
  case (ClaimInterest k)
  with assms(1) have "claimInterest_internal mint (block_timestamp env) k (msg_sender env) s = Inr s'"
    by (simp add: claimInterest_def split: if_splits)
  from claimInterest_internal_effect(2) [OF this] assms(2,3) show ?thesis by auto
next
  case (Vote k nominee)
  with assms(1) have v: "vote env k nominee s = Inr s'" by simp
  from vote_Inr(9) [OF v, of contestId a] vote_Inr(10) [OF v, of contestId a] assms(2,3)
  show ?thesis by simp
next
  case (EndContest k)
  with assms(1) endContest_reverts [of env k s] show ?thesis by auto
next
  case (TransferOwnership newOwner)
  with assms show ?thesis by (auto simp: transferOwnership_def split: if_splits)
next
  case RenounceOwnership
  with assms show ?thesis by (auto simp: renounceOwnership_def split: if_splits)
next
  case Receive
  with assms show ?thesis by (auto simp: receive_def)
qed

lemma reaches_keeps_voter:
  assumes "reaches mint s s'"
    and "hasVoted (contestParticipants s contestId a)"
    and "0 < depositAmount (contestParticipants s contestId a)"
  shows "hasVoted (contestParticipants s' contestId a)
    \<and> 0 < depositAmount (contestParticipants s' contestId a)"
  using assms
proof (induction rule: reaches.induct)
  case (reaches_refl s)
  then show ?case by simp
next
  case (reaches_step s s' env c s'')
  then show ?case using exec_keeps_voter by blast
qed

lemma sum_deposit_upd:
  fixes f :: "address \<Rightarrow> Participant"
  assumes "unat (depositAmount p) = unat (depositAmount (f a)) + v"
  shows "(\<Sum>x\<in>UNIV. unat (depositAmount ((f(a := p)) x)))
           = (\<Sum>x\<in>UNIV. unat (depositAmount (f x))) + v"
proof -
  have "(\<Sum>x\<in>UNIV. unat (depositAmount ((f(a := p)) x)))
      = unat (depositAmount ((f(a := p)) a))
        + (\<Sum>x\<in>UNIV - {a}. unat (depositAmount ((f(a := p)) x)))"
    by (rule sum.remove) simp_all
  also have "(\<Sum>x\<in>UNIV - {a}. unat (depositAmount ((f(a := p)) x)))
      = (\<Sum>x\<in>UNIV - {a}. unat (depositAmount (f x)))"
    by (rule sum.cong) simp_all
  also have "unat (depositAmount ((f(a := p)) a)) = unat (depositAmount (f a)) + v"
    using assms by simp
  finally have "(\<Sum>x\<in>UNIV. unat (depositAmount ((f(a := p)) x)))
      = (unat (depositAmount (f a)) + (\<Sum>x\<in>UNIV - {a}. unat (depositAmount (f x)))) + v"
    by simp
  moreover have "(\<Sum>x\<in>UNIV. unat (depositAmount (f x)))
      = unat (depositAmount (f a)) + (\<Sum>x\<in>UNIV - {a}. unat (depositAmount (f x)))"
    by (rule sum.remove) simp_all
  ultimately show ?thesis by simp
qed

lemma ledger_invD:
  assumes "ledger_inv n s"
  shows "unat (contestCounter s) = n"
    and "c = 0 \<or> n < unat c \<Longrightarrow>
          contests s c = zero_ContestDetails \<and> (\<forall>a. contestParticipants s c a = zero_Participant)"
    and "unat (totalDeposited (contests s c))
          = (\<Sum>a\<in>UNIV. unat (depositAmount (contestParticipants s c a)))"
  using assms unfolding ledger_inv_def by blast+

lemma ledger_inv_constructor: "ledger_inv 0 (constructor deployer tok)"
  by (simp add: ledger_inv_def constructor_def zero_Participant_def zero_ContestDetails_def)

lemma ledger_inv_createContest:
  assumes inv: "ledger_inv n s" and bound: "Suc n < 2 ^ 256"
    and ex: "createContest env ttl descr gls votingDuration s = Inr (s', k)"
  shows "ledger_inv (Suc n) s'"
proof -
  note cnt = ledger_invD(1) [OF inv] and fresh = ledger_invD(2) [OF inv]
    and sums = ledger_invD(3) [OF inv]
  note f = createContest_Inr [OF ex]
  from f(4) obtain deadline where cs: "contests s' = (contests s)(contestCounter s + 1 :=
           \<lparr>title = ttl, description = descr, goals = gls, totalDeposited = 0,
            totalInterestGenerated = 0, participantsCount = 0,
            votingDeadline = deadline, active = True\<rparr>)"
    by blast
  have "unat (contestCounter s) + unat (1 :: uint256) < 2 ^ 256"
    using cnt bound by simp
  from unat_add_256 [OF this] cnt have k: "unat (contestCounter s + 1) = Suc n"
    by simp
  have c1: "unat (contestCounter s') = Suc n"
    using k by (simp add: f(2))
  have c2: "contests s' c = zero_ContestDetails \<and> (\<forall>a. contestParticipants s' c a = zero_Participant)"
    if "c = 0 \<or> Suc n < unat c" for c
  proof -
    from that k have "c \<noteq> contestCounter s + 1" by auto
    moreover from that have "c = 0 \<or> n < unat c" by auto
    ultimately show ?thesis using fresh [of c] by (simp add: cs f(3))
  qed
  have c3: "unat (totalDeposited (contests s' c))
          = (\<Sum>a\<in>UNIV. unat (depositAmount (contestParticipants s' c a)))" for c
  proof (cases "c = contestCounter s + 1")
    case True
    with k have "n < unat c" by simp
    with fresh [of c] have "\<forall>a. contestParticipants s c a = zero_Participant" by simp
    with True show ?thesis by (simp add: cs f(3) zero_Participant_def)
  next
    case False
    with sums [of c] show ?thesis by (simp add: cs f(3))
  qed
  from c1 c2 c3 show ?thesis by (simp add: ledger_inv_def)
qed

lemma ledger_inv_deposit:
  assumes inv: "ledger_inv n s" and ex: "deposit mint env k s = Inr s'"
  shows "ledger_inv n s'"
proof -
  note cnt = ledger_invD(1) [OF inv] and fresh = ledger_invD(2) [OF inv]
    and sums = ledger_invD(3) [OF inv]
  from ex have act: "active (contests s k)"
    by (simp add: deposit_def split: if_splits)
  note f = deposit_fields [OF ex]
  from f(3) obtain cd where cs: "contests s' = (contests s)(k := cd)"
    and tot: "unat (totalDeposited cd) = unat (totalDeposited (contests s k)) + unat (msg_value env)"
    by blast
  let ?p = "(contestParticipants s k (msg_sender env))
                 \<lparr>lastInterestClaimTime := block_timestamp env,
                  depositAmount := depositAmount (contestParticipants s k (msg_sender env))
                     + msg_value env,
                  depositTimestamp := block_timestamp env\<rparr>"
  have ps: "contestParticipants s' = (contestParticipants s)
      (k := (contestParticipants s k)(msg_sender env := ?p))"
    by (rule f(1))
  have c1: "unat (contestCounter s') = n"
    using cnt by (simp add: f(4))
  have c2: "contests s' c = zero_ContestDetails \<and> (\<forall>a. contestParticipants s' c a = zero_Participant)"
    if "c = 0 \<or> n < unat c" for c
  proof -
    from fresh [OF that] act have "c \<noteq> k" by (auto simp: zero_ContestDetails_def)
    with fresh [OF that] show ?thesis by (simp add: cs ps)
  qed
  have c3: "unat (totalDeposited (contests s' c))
          = (\<Sum>a\<in>UNIV. unat (depositAmount (contestParticipants s' c a)))" for c
  proof (cases "c = k")
    case True
    have "unat (depositAmount ?p)
        = unat (depositAmount (contestParticipants s k (msg_sender env))) + unat (msg_value env)"
      using f(2) by simp
    from sum_deposit_upd [of ?p "contestParticipants s k" "msg_sender env", OF this]
    show ?thesis using True tot sums [of k] by (simp add: cs ps)
  next
    case False
    with sums [of c] show ?thesis by (simp add: cs ps)
  qed
  from c1 c2 c3 show ?thesis by (simp add: ledger_inv_def)
qed

lemma ledger_inv_claimInterest:
  assumes inv: "ledger_inv n s"
    and ex: "claimInterest_internal mint now k a s = Inr s'"
  shows "ledger_inv n s'"
proof -
  note cnt = ledger_invD(1) [OF inv] and fresh = ledger_invD(2) [OF inv]
    and sums = ledger_invD(3) [OF inv]
  note f = claimInterest_internal_effect [OF ex]
  from f(3) obtain total where cs: "contests s' = (contests s)
      (k := (contests s k)\<lparr>totalInterestGenerated := total\<rparr>)"
    by blast
  have dep: "depositAmount (contestParticipants s' c x) = depositAmount (contestParticipants s c x)"
    for c x
    by (simp add: f(2))
  have c1: "unat (contestCounter s') = n"
    using cnt by (simp add: f(4))
  have c2: "contests s' c = zero_ContestDetails \<and> (\<forall>a. contestParticipants s' c a = zero_Participant)"
    if "c = 0 \<or> n < unat c" for c
  proof -
    from fresh [OF that] f(1) have "c \<noteq> k" by (auto simp: zero_Participant_def)
    with fresh [OF that] show ?thesis by (simp add: cs f(2))
  qed
  have c3: "unat (totalDeposited (contests s' c))
          = (\<Sum>a\<in>UNIV. unat (depositAmount (contestParticipants s' c a)))" for c
    using sums [of c] by (auto simp: dep cs)
  from c1 c2 c3 show ?thesis by (simp add: ledger_inv_def)
qed

lemma ledger_inv_vote:
  assumes inv: "ledger_inv n s" and ex: "vote env k nominee s = Inr s'"
  shows "ledger_inv n s'"
proof -
  note cnt = ledger_invD(1) [OF inv] and fresh = ledger_invD(2) [OF inv]
    and sums = ledger_invD(3) [OF inv]
  note f = vote_Inr [OF ex]
  have c1: "unat (contestCounter s') = n"
    using cnt by (simp add: f(7))
  have c2: "contests s' c = zero_ContestDetails \<and> (\<forall>a. contestParticipants s' c a = zero_Participant)"
    if "c = 0 \<or> n < unat c" for c
  proof -
    from fresh [OF that] f(2) have "c \<noteq> k" by (auto simp: zero_ContestDetails_def)
    with fresh [OF that] show ?thesis by (simp add: f(6) f(11))
  qed
  have c3: "unat (totalDeposited (contests s' c))
          = (\<Sum>a\<in>UNIV. unat (depositAmount (contestParticipants s' c a)))" for c
    using sums [of c] by (simp add: f(6) f(9))
  from c1 c2 c3 show ?thesis by (simp add: ledger_inv_def)
qed

lemma ledger_inv_exec:
  assumes inv: "ledger_inv n s" and bound: "n + creations c < 2 ^ 256"
    and ex: "exec mint env c s = Inr s'"
  shows "ledger_inv (n + creations c) s'"
proof (cases c)
  case (CreateContest ttl descr gls votingDuration)
  with ex obtain k where "createContest env ttl descr gls votingDuration s = Inr (s', k)"
    by (auto simp: and_then_eq_Inr)
  from ledger_inv_createContest [OF inv _ this] bound CreateContest show ?thesis by simp
next
  case (Deposit k)
  with ex ledger_inv_deposit [OF inv] show ?thesis by simp
next
  case (ClaimInterest k)
  with ex ledger_inv_claimInterest [OF inv] show ?thesis
    by (auto simp: claimInterest_def split: if_splits)
next
  case (Vote k nominee)
  with ex ledger_inv_vote [OF inv] show ?thesis by simp
next
  case (EndContest k)
  with ex endContest_reverts [of env k s] show ?thesis by auto
next
  case (TransferOwnership newOwner)
  with ex inv show ?thesis
    by (auto simp: transferOwnership_def ledger_inv_def split: if_splits)
next
  case RenounceOwnership
  with ex inv show ?thesis
    by (auto simp: renounceOwnership_def ledger_inv_def split: if_splits)
next
  case Receive
  with ex inv show ?thesis by (simp add: receive_def)
qed

lemma reachable_ledger_inv:
  assumes "reachable mint n s" and "n < 2 ^ 256"
  shows "ledger_inv n s"
  using assms
proof (induction rule: reachable.induct)
  case (reachable_init deployer tok)
  show ?case by (rule ledger_inv_constructor)
next
  case (reachable_step n s env c s')
  from reachable_step.prems have "n < 2 ^ 256" by simp
  from ledger_inv_exec [OF reachable_step.IH [OF this] reachable_step.prems reachable_step.hyps(2)]
  show ?case .
qed

lemma exec_totalDeposited_mono:
  assumes inv: "ledger_inv n s" and bound: "n + creations c < 2 ^ 256"
    and ex: "exec mint env c s = Inr s'" and act: "active (contests s contestId)"
  shows "unat (totalDeposited (contests s contestId))
           \<le> unat (totalDeposited (contests s' contestId))"
proof (cases c)
  case (CreateContest ttl descr gls votingDuration)
  with ex obtain k where cr: "createContest env ttl descr gls votingDuration s = Inr (s', k)"
    by (auto simp: and_then_eq_Inr)
  from createContest_Inr(4) [OF cr] obtain deadline where
    cs: "contests s' = (contests s)(contestCounter s + 1 :=
           \<lparr>title = ttl, description = descr, goals = gls, totalDeposited = 0,
            totalInterestGenerated = 0, participantsCount = 0,
            votingDeadline = deadline, active = True\<rparr>)"
    by blast
  have "unat (contestCounter s) + unat (1 :: uint256) < 2 ^ 256"
    using ledger_invD(1) [OF inv] bound CreateContest by simp
  from unat_add_256 [OF this] ledger_invD(1) [OF inv]
  have "n < unat (contestCounter s + 1)" by simp
  with ledger_invD(2) [OF inv, of "contestCounter s + 1"] act
  have "contestId \<noteq> contestCounter s + 1"
    by (auto simp: zero_ContestDetails_def)
  then show ?thesis by (simp add: cs)
next
  case (Deposit k)
  with ex have "deposit mint env k s = Inr s'" by simp
  from deposit_fields(3) [OF this] show ?thesis by (cases "contestId = k") auto
next
  case (ClaimInterest k)
  with ex have "claimInterest_internal mint (block_timestamp env) k (msg_sender env) s = Inr s'"
    by (simp add: claimInterest_def split: if_splits)
  from claimInterest_internal_effect(3) [OF this] show ?thesis
    by (cases "contestId = k") auto
next
  case (Vote k nominee)
  with ex vote_Inr(6) [of env k nominee s s'] show ?thesis by simp
next
  case (EndContest k)
  with ex endContest_reverts [of env k s] show ?thesis by auto
next
  case (TransferOwnership newOwner)
  with ex show ?thesis by (auto simp: transferOwnership_def split: if_splits)
next
  case RenounceOwnership
  with ex show ?thesis by (auto simp: renounceOwnership_def split: if_splits)
next
  case Receive
  with ex show ?thesis by (simp add: receive_def)
qed

lemma ex_created_reachable: "reachable mint_log 1 ex_created"
  using reachable_step [OF reachable_init [of mint_log 1 "[]"] ex_created_exec] by simp

lemma ex_joined_reachable: "reachable mint_log 1 ex_joined"
  using reachable_step [OF ex_created_reachable ex_joined_exec] by simp

lemma ex_voted_reachable: "reachable mint_log 1 ex_voted"
  using reachable_step [OF ex_joined_reachable ex_voted_exec] by simp



section \<open>The claims of the specification\<close>

subsection \<open>C1: Winner resolution\<close>

text \<open>
  C1 (violated by the code): after the deadline, on a contest that is no longer
  active, \<open>getWinner\<close> must return a participant with the most votes. In the reachable
  storage \<open>ex_voted\<close> participant 2 holds the only vote of contest 1, and address 0 has
  neither a deposit nor a vote. At time 3601, after the deadline:
  \<^item> on the contest made inactive, which is the storage \<open>endContest\<close> passes on,
    \<open>getWinner\<close> reverts with "Contest is still active", and so does \<open>endContest\<close>;
  \<^item> on the active contest it returns address 0: the loop reads the participant stored
    under \<open>currentWinner\<close> and never visits another address.
\<close>

theorem getWinner_ignores_votes:
  "reachable mint_log 1 ex_voted
   \<and> votesReceived (contestParticipants ex_voted 1 2) = 1
   \<and> depositAmount (contestParticipants ex_voted 1 0) = 0
   \<and> votesReceived (contestParticipants ex_voted 1 0) = 0
   \<and> getWinner 3601 1 (set_contest 1 ((contests ex_voted 1)\<lparr>active := False\<rparr>) ex_voted)
       = Inl ContestStillActive
   \<and> endContest (env_at 1 0 3601) 1 ex_voted = Inl ContestStillActive
   \<and> getWinner 3601 1 ex_voted = Inr 0"
  using ex_voted_reachable
  by (simp add: endContest_def getWinner_result Let_def ex_defs)


subsection \<open>C2: Ending a contest\<close>

text \<open>
  C2, as stated, fails: the owner ends the active contest 1 of \<open>ex_created\<close> at time 100,
  before the voting deadline 3600, and the call does not succeed: winner resolution
  rejects it with VotingStillOpen.
\<close>

theorem endContest_before_deadline_fails:
  "msg_value (env_at 1 0 100) = 0
   \<and> msg_sender (env_at 1 0 100) = owner ex_created
   \<and> active (contests ex_created 1)
   \<and> endContest (env_at 1 0 100) 1 ex_created = Inl VotingStillOpen"
  by (simp add: endContest_def getWinner_result env_at_def ex_created_def constructor_def
        set_contest_def emit_def Let_def)

text \<open>
  C2, amended: called by the owner in a transaction that carries no ether,
  \<open>endContest\<close> fails with AlreadyInactive when \<open>active\<close> is already false; when
  \<open>active\<close> is true and the voting deadline has not passed it fails with
  VotingStillOpen, raised by winner resolution, and nothing is written.
\<close>

theorem endContest_failures:
  assumes "msg_value env = 0" and "msg_sender env = owner s"
  shows "(\<not> active (contests s contestId) \<longrightarrow> endContest env contestId s = Inl AlreadyInactive)
    \<and> (active (contests s contestId) \<and> block_timestamp env \<le> votingDeadline (contests s contestId)
         \<longrightarrow> endContest env contestId s = Inl VotingStillOpen)"
  using assms
  by (simp add: endContest_def getWinner_result AlreadyInactive_def set_contest_def Let_def)

text \<open>
  C2, amended, at work: in \<open>ex_created\<close> the owner, address 1, ends contest 5, which
  is not active, and contest 1, which is active, at time 100.
\<close>

theorem endContest_failures_witness:
  "msg_value (env_at 1 0 100) = 0
   \<and> msg_sender (env_at 1 0 100) = owner ex_created
   \<and> \<not> active (contests ex_created 5)
   \<and> endContest (env_at 1 0 100) 5 ex_created = Inl AlreadyInactive
   \<and> active (contests ex_created 1)
   \<and> block_timestamp (env_at 1 0 100) \<le> votingDeadline (contests ex_created 1)
   \<and> endContest (env_at 1 0 100) 1 ex_created = Inl VotingStillOpen"
proof -
  have val: "msg_value (env_at 1 0 100) = 0"
    by (simp add: env_at_def)
  have own: "msg_sender (env_at 1 0 100) = owner ex_created"
    by (simp add: env_at_def ex_created_def constructor_def set_contest_def emit_def)
  have a5: "\<not> active (contests ex_created 5)"
    by (simp add: ex_created_def constructor_def set_contest_def emit_def zero_ContestDetails_def)
  have a1: "active (contests ex_created 1)
      \<and> block_timestamp (env_at 1 0 100) \<le> votingDeadline (contests ex_created 1)"
    by (simp add: env_at_def ex_created_def constructor_def set_contest_def emit_def)
  from val own a5 a1 endContest_failures [OF val own, of 5] endContest_failures [OF val own, of 1]
  show ?thesis by blast
qed


subsection \<open>C3: Operations on an inactive contest\<close>




subsection \<open>C4: The accrual formula\<close>

text \<open>
  C4: with \<open>d = depositAmount > 0\<close>, \<open>\<Delta>t = now - lastInterestClaimTime\<close> and rate 5,
  \<open>getAccruedInterest\<close> returns, and \<open>claimInterest\<close> settles, exactly
  \<open>floor(floor(d * 5 / 100) * \<Delta>t / SECONDS_PER_YEAR)\<close>, whenever the checked
  arithmetic does not revert (\<open>no_overflow\<close>); outside that range the query reverts with
  a panic. \<open>claimInterest\<close> is not payable: a call that carries ether is rejected
  before anything is computed. A deposit of 1000 last settled at time 0 yields 50 at
  time \<open>SECONDS_PER_YEAR\<close>, and a participant without deposit yields 0.
\<close>

theorem accrued_interest_formula:
  fixes s :: "'t ledger"
  shows
   "(depositAmount (contestParticipants s contestId (msg_sender env)) = 0 \<longrightarrow>
       getAccruedInterest (block_timestamp env) contestId (msg_sender env) s = Inr 0)
    \<and> (0 < depositAmount (contestParticipants s contestId (msg_sender env))
        \<and> no_overflow (depositAmount (contestParticipants s contestId (msg_sender env)))
             (lastInterestClaimTime (contestParticipants s contestId (msg_sender env)))
             (block_timestamp env) \<longrightarrow>
       unat (word_of_nat (accrued_spec
               (unat (depositAmount (contestParticipants s contestId (msg_sender env))))
               (unat (block_timestamp env)
                  - unat (lastInterestClaimTime (contestParticipants s contestId (msg_sender env)))))
             :: uint256)
         = accrued_spec
               (unat (depositAmount (contestParticipants s contestId (msg_sender env))))
               (unat (block_timestamp env)
                  - unat (lastInterestClaimTime (contestParticipants s contestId (msg_sender env))))
       \<and> getAccruedInterest (block_timestamp env) contestId (msg_sender env) s
         = Inr (word_of_nat (accrued_spec
               (unat (depositAmount (contestParticipants s contestId (msg_sender env))))
               (unat (block_timestamp env)
                  - unat (lastInterestClaimTime (contestParticipants s contestId (msg_sender env))))))
       \<and> claimInterest mint env contestId s
         = (if msg_value env \<noteq> 0 then Inl NonPayable
            else settle_spec mint (block_timestamp env) contestId (msg_sender env)
             (word_of_nat (accrued_spec
               (unat (depositAmount (contestParticipants s contestId (msg_sender env))))
               (unat (block_timestamp env)
                  - unat (lastInterestClaimTime (contestParticipants s contestId (msg_sender env))))))
             s))
    \<and> (0 < depositAmount (contestParticipants s contestId (msg_sender env))
        \<and> \<not> no_overflow (depositAmount (contestParticipants s contestId (msg_sender env)))
             (lastInterestClaimTime (contestParticipants s contestId (msg_sender env)))
             (block_timestamp env) \<longrightarrow>
       getAccruedInterest (block_timestamp env) contestId (msg_sender env) s = Inl Panic)
    \<and> (depositAmount (contestParticipants s contestId (msg_sender env)) = 1000
        \<and> lastInterestClaimTime (contestParticipants s contestId (msg_sender env)) = 0
        \<and> block_timestamp env = SECONDS_PER_YEAR \<longrightarrow>
       getAccruedInterest (block_timestamp env) contestId (msg_sender env) s = Inr 50)"
proof -
  let ?p = "contestParticipants s contestId (msg_sender env)"
  let ?A = "accrued_spec (unat (depositAmount ?p))
              (unat (block_timestamp env) - unat (lastInterestClaimTime ?p))"
  have zero: "depositAmount ?p = 0 \<longrightarrow>
      getAccruedInterest (block_timestamp env) contestId (msg_sender env) s = Inr 0"
    by (simp add: getAccruedInterest_def)
  have main: "unat (word_of_nat ?A :: uint256) = ?A
      \<and> getAccruedInterest (block_timestamp env) contestId (msg_sender env) s
          = Inr (word_of_nat ?A)
      \<and> claimInterest mint env contestId s
          = (if msg_value env \<noteq> 0 then Inl NonPayable
             else settle_spec mint (block_timestamp env) contestId (msg_sender env)
                    (word_of_nat ?A) s)"
    if pos: "0 < depositAmount ?p"
      and ok: "no_overflow (depositAmount ?p) (lastInterestClaimTime ?p) (block_timestamp env)"
  proof -
    have "unat (word_of_nat ?A :: uint256) = ?A"
      using accrual_words(6) [OF ok] by (simp only: accrual_word_of_nat [OF ok])
    moreover note getAccruedInterest_no_overflow [OF pos ok]
    moreover have "claimInterest mint env contestId s
          = (if msg_value env \<noteq> 0 then Inl NonPayable
             else settle_spec mint (block_timestamp env) contestId (msg_sender env)
                    (word_of_nat ?A) s)"
      using claimInterest_internal_no_overflow [OF pos ok] by (simp add: claimInterest_def)
    ultimately show ?thesis by blast
  qed
  have panic: "getAccruedInterest (block_timestamp env) contestId (msg_sender env) s = Inl Panic"
    if "0 < depositAmount ?p"
      and "\<not> no_overflow (depositAmount ?p) (lastInterestClaimTime ?p) (block_timestamp env)"
    using getAccruedInterest_overflow [OF that] .
  have year: "getAccruedInterest (block_timestamp env) contestId (msg_sender env) s = Inr 50"
    if "depositAmount ?p = 1000" and "lastInterestClaimTime ?p = 0"
      and "block_timestamp env = SECONDS_PER_YEAR"
    using that
    by (simp add: getAccruedInterest_def checked_sub_def checked_mul_def checked_div_def
          INTEREST_RATE_def SECONDS_PER_YEAR_def)
  from zero main panic year show ?thesis by blast
qed

text \<open>
  C4 at work: participant 2 of \<open>ex_joined\<close> deposited 1000 at time 0; one year later
  the formula, the query and the settlement give 50, and address 7, without deposit,
  gets 0.
\<close>

theorem accrued_interest_formula_witness:
  "0 < depositAmount (contestParticipants ex_joined 1 2)
   \<and> no_overflow (depositAmount (contestParticipants ex_joined 1 2))
        (lastInterestClaimTime (contestParticipants ex_joined 1 2)) 31536000
   \<and> accrued_spec 1000 31536000 = 50
   \<and> getAccruedInterest 31536000 1 2 ex_joined = Inr 50
   \<and> msg_value (env_at 2 0 31536000) = 0
   \<and> claimInterest mint_log (env_at 2 0 31536000) 1 ex_joined
       = settle_spec mint_log 31536000 1 2 50 ex_joined
   \<and> depositAmount (contestParticipants ex_joined 1 7) = 0
   \<and> getAccruedInterest 31536000 1 7 ex_joined = Inr 0"
proof -
  have p: "depositAmount (contestParticipants ex_joined 1 2) = 1000"
      "lastInterestClaimTime (contestParticipants ex_joined 1 2) = 0"
      "depositAmount (contestParticipants ex_joined 1 7) = 0"
    by (simp_all add: ex_joined_def ex_created_def constructor_def set_contest_def
          set_participant_def emit_def zero_Participant_def)
  have ok: "no_overflow 1000 0 31536000"
    by (simp add: no_overflow_def)
  have a: "accrued_spec 1000 31536000 = 50"
    by (simp add: accrued_spec_def)
  from accrued_interest_formula [of ex_joined 1 "env_at 2 0 31536000" mint_log]
    accrued_interest_formula [of ex_joined 1 "env_at 7 0 31536000" mint_log]
  show ?thesis
    by (simp add: env_at_def p ok a)
qed


subsection \<open>C5: The books of a contest\<close>

text \<open>
  C5: in every storage reached from the constructor by successful transactions, fewer
  than \<open>2 ^ 256\<close> of them contest creations (the identifier counter has not wrapped
  around), \<open>totalDeposited\<close> of every contest is the sum of \<open>depositAmount\<close> over all
  addresses, and no successful transaction lowers \<open>totalDeposited\<close> of an active
  contest.
\<close>

theorem totalDeposited_is_sum:
  assumes "reachable mint n s" and "n < 2 ^ 256"
  shows "unat (totalDeposited (contests s contestId))
           = (\<Sum>a\<in>UNIV. unat (depositAmount (contestParticipants s contestId a)))
    \<and> (exec mint env c s = Inr s' \<and> n + creations c < 2 ^ 256 \<and> active (contests s contestId)
          \<longrightarrow> unat (totalDeposited (contests s contestId))
                 \<le> unat (totalDeposited (contests s' contestId)))"
proof -
  note inv = reachable_ledger_inv [OF assms]
  from ledger_invD(3) [OF inv] exec_totalDeposited_mono [OF inv]
  show ?thesis by blast
qed

text \<open>
  C5 at work: \<open>ex_joined\<close> is reachable with one creation; the deposits of contest 1
  sum to its \<open>totalDeposited\<close>, 1000, and the next deposit raises it to 1500.
\<close>

theorem totalDeposited_is_sum_witness:
  "reachable mint_log 1 ex_joined \<and> (1 :: nat) < 2 ^ 256
   \<and> unat (totalDeposited (contests ex_joined 1)) = 1000
   \<and> (\<Sum>a\<in>UNIV. unat (depositAmount (contestParticipants ex_joined 1 a))) = 1000
   \<and> exec mint_log (env_at 2 500 31536000) (Deposit 1) ex_joined = Inr ex_topped
   \<and> 1 + creations (Deposit 1) < (2 :: nat) ^ 256
   \<and> active (contests ex_joined 1)
   \<and> unat (totalDeposited (contests ex_joined 1)) \<le> unat (totalDeposited (contests ex_topped 1))"
proof -
  have b: "(1 :: nat) < 2 ^ 256" by simp
  have e: "exec mint_log (env_at 2 500 31536000) (Deposit 1) ex_joined = Inr ex_topped"
    using ex_topped_exec by simp
  have v: "unat (totalDeposited (contests ex_joined 1)) = 1000" "active (contests ex_joined 1)"
    by (simp_all add: ex_defs)
  from totalDeposited_is_sum [OF ex_joined_reachable b, of 1 "env_at 2 500 31536000" "Deposit 1" ex_topped]
    ex_joined_reachable e v
  show ?thesis by simp
qed


subsection \<open>C6: Deposits\<close>

text \<open>
  C6: a successful deposit of \<open>msg.value\<close> into a contest. If the caller had no deposit,
  \<open>participantsCount\<close> grows by one and \<open>lastInterestClaimTime\<close> becomes \<open>now\<close>;
  otherwise the accrual routine runs first, on the old principal, and the deposit
  continues from the storage it returns. In both cases \<open>msg.value\<close> is added to the
  caller's \<open>depositAmount\<close> and to the contest's \<open>totalDeposited\<close>, and
  \<open>depositTimestamp\<close> becomes \<open>now\<close>.
\<close>

theorem deposit_effects:
  assumes "deposit mint env contestId s = Inr s'"
  shows
   "active (contests s contestId)
    \<and> (depositAmount (contestParticipants s contestId (msg_sender env)) = 0 \<longrightarrow>
         unat (participantsCount (contests s' contestId))
           = unat (participantsCount (contests s contestId)) + 1
         \<and> lastInterestClaimTime (contestParticipants s' contestId (msg_sender env))
           = block_timestamp env)
    \<and> (depositAmount (contestParticipants s contestId (msg_sender env)) \<noteq> 0 \<longrightarrow>
         (\<exists>s1. claimInterest_internal mint (block_timestamp env) contestId (msg_sender env) s = Inr s1
            \<and> s' = emit (ParticipantJoined contestId (msg_sender env) (msg_value env))
                 (set_contest contestId
                    ((contests s1 contestId)
                       \<lparr>totalDeposited := totalDeposited (contests s1 contestId) + msg_value env\<rparr>)
                    (set_participant contestId (msg_sender env)
                       ((contestParticipants s1 contestId (msg_sender env))
                          \<lparr>depositAmount :=
                              depositAmount (contestParticipants s contestId (msg_sender env))
                                + msg_value env,
                           depositTimestamp := block_timestamp env\<rparr>) s1))))
    \<and> unat (depositAmount (contestParticipants s' contestId (msg_sender env)))
        = unat (depositAmount (contestParticipants s contestId (msg_sender env)))
          + unat (msg_value env)
    \<and> unat (totalDeposited (contests s' contestId))
        = unat (totalDeposited (contests s contestId)) + unat (msg_value env)
    \<and> depositTimestamp (contestParticipants s' contestId (msg_sender env)) = block_timestamp env"
proof -
  let ?a = "msg_sender env"
  let ?p = "contestParticipants s contestId ?a"
  from assms obtain s1 where act: "active (contests s contestId)"
    and first: "depositAmount ?p = 0 \<Longrightarrow>
           unat (participantsCount (contests s contestId)) + 1 < 2 ^ 256
           \<and> s1 = set_participant contestId ?a (?p\<lparr>lastInterestClaimTime := block_timestamp env\<rparr>)
                  (set_contest contestId
                     ((contests s contestId)
                        \<lparr>participantsCount := participantsCount (contests s contestId) + 1\<rparr>) s)"
    and later: "depositAmount ?p \<noteq> 0 \<Longrightarrow>
           claimInterest_internal mint (block_timestamp env) contestId ?a s = Inr s1"
    and r3: "s' = emit (ParticipantJoined contestId ?a (msg_value env))
           (set_contest contestId
              ((contests s1 contestId)
                 \<lparr>totalDeposited := totalDeposited (contests s1 contestId) + msg_value env\<rparr>)
              (set_participant contestId ?a
                 ((contestParticipants s1 contestId ?a)
                    \<lparr>depositAmount := depositAmount (contestParticipants s1 contestId ?a)
                        + msg_value env,
                     depositTimestamp := block_timestamp env\<rparr>) s1))"
    by (rule deposit_Inr) (rule that; assumption)
  note f = deposit_fields [OF assms]
  have c1: "unat (participantsCount (contests s' contestId))
           = unat (participantsCount (contests s contestId)) + 1
         \<and> lastInterestClaimTime (contestParticipants s' contestId ?a) = block_timestamp env"
    if z: "depositAmount ?p = 0"
  proof -
    from first [OF z] have cnt: "unat (participantsCount (contests s contestId)) + unat (1 :: uint256) < 2 ^ 256"
      and s1: "s1 = set_participant contestId ?a (?p\<lparr>lastInterestClaimTime := block_timestamp env\<rparr>)
                  (set_contest contestId
                     ((contests s contestId)
                        \<lparr>participantsCount := participantsCount (contests s contestId) + 1\<rparr>) s)"
      by simp_all
    have "participantsCount (contests s' contestId) = participantsCount (contests s contestId) + 1"
      by (simp add: r3 s1 emit_def set_contest_def set_participant_def)
    with unat_add_256 [OF cnt] show ?thesis
      by (simp add: f(1))
  qed
  have c2: "\<exists>s1. claimInterest_internal mint (block_timestamp env) contestId ?a s = Inr s1
            \<and> s' = emit (ParticipantJoined contestId ?a (msg_value env))
                 (set_contest contestId
                    ((contests s1 contestId)
                       \<lparr>totalDeposited := totalDeposited (contests s1 contestId) + msg_value env\<rparr>)
                    (set_participant contestId ?a
                       ((contestParticipants s1 contestId ?a)
                          \<lparr>depositAmount := depositAmount ?p + msg_value env,
                           depositTimestamp := block_timestamp env\<rparr>) s1))"
    if nz: "depositAmount ?p \<noteq> 0"
  proof -
    from claimInterest_internal_effect(2) [OF later [OF nz]]
    have "depositAmount (contestParticipants s1 contestId ?a) = depositAmount ?p"
      by simp
    with later [OF nz] r3 show ?thesis by auto
  qed
  have c3: "unat (depositAmount (contestParticipants s' contestId ?a))
        = unat (depositAmount ?p) + unat (msg_value env)"
    using f(2) by (simp add: f(1))
  have c4: "unat (totalDeposited (contests s' contestId))
        = unat (totalDeposited (contests s contestId)) + unat (msg_value env)"
    using f(3) by auto
  have c5: "depositTimestamp (contestParticipants s' contestId ?a) = block_timestamp env"
    by (simp add: f(1))
  from act c1 c2 c3 c4 c5 show ?thesis by blast
qed

text \<open>
  C6 at work: the first deposit of participant 2 (1000 at time 0, from \<open>ex_created\<close>
  to \<open>ex_joined\<close>) and the second (500 one year later, to \<open>ex_topped\<close>), which first
  settles 50 of interest on the principal of 1000.
\<close>

theorem deposit_effects_witness:
  "deposit mint_log (env_at 2 1000 0) 1 ex_created = Inr ex_joined
   \<and> depositAmount (contestParticipants ex_created 1 2) = 0
   \<and> unat (participantsCount (contests ex_created 1)) = 0
   \<and> unat (participantsCount (contests ex_joined 1)) = 1
   \<and> lastInterestClaimTime (contestParticipants ex_joined 1 2) = 0
   \<and> unat (depositAmount (contestParticipants ex_joined 1 2)) = 1000
   \<and> unat (totalDeposited (contests ex_joined 1)) = 1000
   \<and> deposit mint_log (env_at 2 500 31536000) 1 ex_joined = Inr ex_topped
   \<and> claimInterest_internal mint_log 31536000 1 2 ex_joined = Inr ex_claimed
   \<and> tokenManager ex_topped = [(2, 50)]
   \<and> unat (depositAmount (contestParticipants ex_topped 1 2)) = 1500
   \<and> unat (totalDeposited (contests ex_topped 1)) = 1500
   \<and> depositTimestamp (contestParticipants ex_topped 1 2) = 31536000"
proof -
  have d1: "deposit mint_log (env_at 2 1000 0) 1 ex_created = Inr ex_joined"
    using ex_joined_exec by simp
  have c: "claimInterest_internal mint_log 31536000 1 2 ex_joined = Inr ex_claimed"
    using ex_claimed_exec by (simp add: claimInterest_def env_at_def)
  have pre: "depositAmount (contestParticipants ex_created 1 2) = 0"
    "unat (participantsCount (contests ex_created 1)) = 0"
    "unat (depositAmount (contestParticipants ex_joined 1 2)) = 1000"
    "unat (totalDeposited (contests ex_joined 1)) = 1000"
    "tokenManager ex_topped = [(2, 50)]"
    by (simp_all add: ex_defs)
  from deposit_effects [OF d1] deposit_effects [OF ex_topped_exec] d1 ex_topped_exec c pre
  show ?thesis
    by (simp add: env_at_def)
qed


subsection \<open>C7: The guards of getWinner\<close>

text \<open>
  C7 (violated by the code): \<open>getWinner\<close> must fail with ContestStillActive while the
  contest is active and succeed only on an inactive contest whose deadline has passed.
  The code requires \<open>active\<close> where its message says "Contest is still active": in the
  reachable storage \<open>ex_created\<close>, at time 3601, the call returns on the active
  contest 1 and reverts with that message on contest 2, which is not active; for the
  same reason \<open>endContest\<close>, which clears the flag first, reverts. Before the
  deadline, at time 3600, it reverts with VotingStillOpen as the claim says.
\<close>

theorem getWinner_active_check_inverted:
  "reachable mint_log 1 ex_created
   \<and> votingDeadline (contests ex_created 1) = 3600
   \<and> active (contests ex_created 1)
   \<and> getWinner 3600 1 ex_created = Inl VotingStillOpen
   \<and> getWinner 3601 1 ex_created = Inr 0
   \<and> \<not> active (contests ex_created 2)
   \<and> votingDeadline (contests ex_created 2) = 0
   \<and> getWinner 3601 2 ex_created = Inl ContestStillActive
   \<and> endContest (env_at 1 0 3601) 1 ex_created = Inl ContestStillActive"
  using ex_created_reachable
  by (simp add: endContest_def getWinner_result Let_def ex_defs)


subsection \<open>C8: Settling twice\<close>

text \<open>
  C8: when \<open>claimInterest\<close> has succeeded, \<open>lastInterestClaimTime\<close> of the caller is
  \<open>now\<close>, whatever was accrued; a second call at the same \<open>block.timestamp\<close> accrues 0
  and returns the storage unchanged whatever the token contract would answer, so
  nothing is minted, added to \<open>totalInterestGenerated\<close> or emitted.
\<close>

theorem claimInterest_idempotent:
  assumes "claimInterest mint env contestId s = Inr s'"
  shows "0 < depositAmount (contestParticipants s contestId (msg_sender env))
    \<and> lastInterestClaimTime (contestParticipants s' contestId (msg_sender env)) = block_timestamp env
    \<and> getAccruedInterest (block_timestamp env) contestId (msg_sender env) s' = Inr 0
    \<and> claimInterest mint' env contestId s' = Inr s'"
proof -
  from assms
  have v: "msg_value env = 0"
    and h: "claimInterest_internal mint (block_timestamp env) contestId (msg_sender env) s = Inr s'"
    by (simp_all add: claimInterest_def split: if_splits)
  from claimInterest_internal_effect(1) [OF h] claimInterest_internal_again(1) [OF h, of mint']
    claimInterest_internal_again(2,3) [OF h]
  show ?thesis by (simp add: claimInterest_def v)
qed

text \<open>
  C8 at work: participant 2 claims one year after the deposit and is minted 50; the
  same call repeated at the same time returns the storage as it is.
\<close>

theorem claimInterest_idempotent_witness:
  "claimInterest mint_log (env_at 2 0 31536000) 1 ex_joined = Inr ex_claimed
   \<and> tokenManager ex_joined = []
   \<and> tokenManager ex_claimed = [(2, 50)]
   \<and> lastInterestClaimTime (contestParticipants ex_claimed 1 2) = 31536000
   \<and> getAccruedInterest 31536000 1 2 ex_claimed = Inr 0
   \<and> claimInterest mint_log (env_at 2 0 31536000) 1 ex_claimed = Inr ex_claimed"
proof -
  have t: "tokenManager ex_joined = []" "tokenManager ex_claimed = [(2, 50)]"
    by (simp_all add: ex_defs)
  from claimInterest_idempotent [OF ex_claimed_exec, of mint_log] ex_claimed_exec t
  show ?thesis by (simp add: env_at_def)
qed


subsection \<open>C9: Voting twice\<close>

text \<open>
  C9, as stated, fails: participant 2 votes in contest 1 at time 10 (\<open>ex_voted\<close>) and
  calls \<open>vote\<close> again at time 3601, after the deadline 3600. The deadline is checked
  first, so the second call fails with VotingClosed, not with AlreadyVoted.
\<close>

theorem second_vote_after_deadline:
  "vote (env_at 2 0 10) 1 2 ex_joined = Inr ex_voted
   \<and> hasVoted (contestParticipants ex_voted 1 2)
   \<and> vote (env_at 2 0 3601) 1 2 ex_voted = Inl VotingClosed
   \<and> VotingClosed \<noteq> AlreadyVoted"
  using ex_voted_exec
  by (simp add: vote_def VotingClosed_def AlreadyVoted_def ex_defs)

text \<open>
  C9, amended: once a participant has voted successfully in a contest, every later
  \<open>vote\<close> call of that participant in the same contest fails, whichever nominee is
  named and whatever successful transactions came in between; it fails with
  AlreadyVoted unless an earlier check of \<open>vote\<close> fires: the rejection of a call that
  carries ether (\<open>vote\<close> is not payable), VotingClosed when the deadline has passed,
  ContestInactive when the contest is not active.
\<close>

theorem second_vote_fails:
  assumes "vote env contestId nominee s = Inr s1"
    and "reaches mint s1 s2"
    and "msg_sender env' = msg_sender env"
  shows "vote env' contestId nominee' s2 =
           Inl (if msg_value env' \<noteq> 0 then NonPayable
                else if votingDeadline (contests s2 contestId) < block_timestamp env'
                then VotingClosed
                else if \<not> active (contests s2 contestId) then ContestInactive
                else AlreadyVoted)"
proof -
  from vote_Inr(3) [OF assms(1)] vote_Inr(9) [OF assms(1), of contestId "msg_sender env"]
  have "0 < depositAmount (contestParticipants s1 contestId (msg_sender env))"
    by simp
  with reaches_keeps_voter [OF assms(2) vote_Inr(8) [OF assms(1)]]
  have "hasVoted (contestParticipants s2 contestId (msg_sender env'))"
    and "0 < depositAmount (contestParticipants s2 contestId (msg_sender env'))"
    by (simp_all add: assms(3))
  then show ?thesis
    by (simp add: vote_def VotingClosed_def ContestInactive_def AlreadyVoted_def not_le)
qed

text \<open>
  C9, amended, at work: participant 2 has voted at time 10 and votes again at time 20,
  within the window, now for address 7.
\<close>

theorem second_vote_fails_witness:
  "vote (env_at 2 0 10) 1 2 ex_joined = Inr ex_voted
   \<and> reaches mint_log ex_voted ex_voted
   \<and> msg_sender (env_at 2 0 20) = msg_sender (env_at 2 0 10)
   \<and> msg_value (env_at 2 0 20) = 0
   \<and> \<not> votingDeadline (contests ex_voted 1) < block_timestamp (env_at 2 0 20)
   \<and> active (contests ex_voted 1)
   \<and> vote (env_at 2 0 20) 1 7 ex_voted = Inl AlreadyVoted"
proof -
  have v: "vote (env_at 2 0 10) 1 2 ex_joined = Inr ex_voted"
    using ex_voted_exec by simp
  have r: "reaches mint_log ex_voted ex_voted"
    by (rule reaches_refl)
  have e: "msg_sender (env_at 2 0 20) = msg_sender (env_at 2 0 10)"
    by (simp add: env_at_def)
  have c: "\<not> votingDeadline (contests ex_voted 1) < block_timestamp (env_at 2 0 20)"
      "active (contests ex_voted 1)" "msg_value (env_at 2 0 20) = 0"
    by (simp_all add: ex_defs)
  from second_vote_fails [OF v r e, of 7] v r e c show ?thesis by simp
qed


subsection \<open>C10: Contests that were never created\<close>

text \<open>
  C10, as stated, fails for a deposit of amount 0: contest 7 was never created in
  \<open>ex_created\<close> (one creation, identifier 1), and the amount is checked before the
  contest, so the deposit fails with InvalidAmount, not with ContestInactive.
\<close>

theorem deposit_zero_never_created:
  "contests ex_created 7 = zero_ContestDetails
   \<and> deposit mint_log (env_at 2 0 5) 7 ex_created = Inl InvalidAmount
   \<and> InvalidAmount \<noteq> ContestInactive"
  by (simp add: deposit_def InvalidAmount_def ContestInactive_def ex_defs)

text \<open>
  C10, amended: after \<open>n < 2 ^ 256\<close> creations the contests created are \<open>1, \<dots>, n\<close>.
  For every other identifier the contest record is the zero record; a deposit of a
  positive amount fails with ContestInactive, and a vote at any time after 0, in a
  call that carries no ether (\<open>vote\<close> is not payable), fails with VotingClosed. These
  are the answers any inactive, respectively expired, contest \<open>k\<close> of any storage
  \<open>s2\<close> gives to the same call: no error tells a contest that was never created from
  one that is inactive or expired.
\<close>

theorem never_created_contest:
  assumes "reachable mint n s" and "n < 2 ^ 256" and "contestId = 0 \<or> n < unat contestId"
  shows "contests s contestId = zero_ContestDetails
    \<and> (0 < msg_value env \<longrightarrow> deposit mint env contestId s = Inl ContestInactive)
    \<and> (msg_value env = 0 \<and> 0 < block_timestamp env \<longrightarrow>
          vote env contestId nominee s = Inl VotingClosed)
    \<and> (\<not> active (contests s2 k) \<longrightarrow> deposit mint env contestId s = deposit mint env k s2)
    \<and> (0 < block_timestamp env \<and> votingDeadline (contests s2 k) < block_timestamp env \<longrightarrow>
          vote env contestId nominee s = vote env k nominee s2)"
proof -
  from ledger_invD(2) [OF reachable_ledger_inv [OF assms(1,2)] assms(3)]
  have z: "contests s contestId = zero_ContestDetails" by simp
  then show ?thesis
    by (simp add: deposit_def vote_def ContestInactive_def VotingClosed_def
          zero_ContestDetails_def word_greater_zero_iff not_le)
qed

text \<open>
  C10, amended, at work: in \<open>ex_created\<close> only contest 1 exists. Contest 7 answers a
  deposit of 1000 as contest 2, which is not active, does, and a vote at time 3601, sent
  without ether, as contest 1, whose deadline 3600 has passed, does.
\<close>

theorem never_created_contest_witness:
  "reachable mint_log 1 ex_created \<and> (1 :: nat) < 2 ^ 256 \<and> 1 < unat (7 :: uint256)
   \<and> contests ex_created 7 = zero_ContestDetails
   \<and> 0 < msg_value (env_at 2 1000 5)
   \<and> deposit mint_log (env_at 2 1000 5) 7 ex_created = Inl ContestInactive
   \<and> \<not> active (contests ex_created 2)
   \<and> deposit mint_log (env_at 2 1000 5) 7 ex_created = deposit mint_log (env_at 2 1000 5) 2 ex_created
   \<and> msg_value (env_at 2 0 3601) = 0 \<and> 0 < block_timestamp (env_at 2 0 3601)
   \<and> vote (env_at 2 0 3601) 7 3 ex_created = Inl VotingClosed
   \<and> votingDeadline (contests ex_created 1) < block_timestamp (env_at 2 0 3601)
   \<and> vote (env_at 2 0 3601) 7 3 ex_created = vote (env_at 2 0 3601) 1 3 ex_created"
proof -
  have b: "(1 :: nat) < 2 ^ 256" by simp
  have k: "(7 :: uint256) = 0 \<or> 1 < unat (7 :: uint256)" by simp
  have a: "\<not> active (contests ex_created 2)"
    "votingDeadline (contests ex_created 1) < block_timestamp (env_at 2 0 3601)"
    by (simp_all add: ex_defs)
  have e: "0 < msg_value (env_at 2 1000 5)" "msg_value (env_at 2 0 3601) = 0"
    "0 < block_timestamp (env_at 2 0 3601)"
    by (simp_all add: env_at_def)
  from never_created_contest [OF ex_created_reachable b k, of "env_at 2 1000 5" 3 ex_created 2]
    never_created_contest [OF ex_created_reachable b k, of "env_at 2 0 3601" 3 ex_created 1]
    ex_created_reachable a e
  show ?thesis by auto
qed

end
